theory Spec2Isabelle
  imports Complex_Main "HOL-Library.Sublist"
begin

section \<open>Faster R-CNN example driver (FasterRCNN.py)\<close>

text \<open>
  The development embeds the functions of \<^verbatim>\<open>Examples/Image/Detection/FasterRCNN/FasterRCNN.py\<close>
  that the specification talks about.  Numeric arrays (float32/float64 numpy arrays) are
  lists of rows over \<^typ>\<open>real\<close>: rounding of floating-point arithmetic is not modelled,
  only the shape, the indexing and the data flow of the code.  Python exceptions are values
  of the type \<open>error\<close>; a function that may raise returns \<open>error + 'a\<close>.
\<close>

subsection \<open>Errors and numpy indexing\<close>

datatype error =
    ValueError string
  | RuntimeError string
  | IndexError string
  | TypeError string
  | CvError string
  | BdbQuit

type_synonym array1 = "real list"
type_synonym array2 = "real list list"

text \<open>Python's \<^verbatim>\<open>xs[a:b]\<close> for non-negative bounds: it never raises and clips to the length.\<close>

definition slice_py :: "'a list \<Rightarrow> nat \<Rightarrow> nat \<Rightarrow> 'a list" where
  "slice_py xs a b = take (b - a) (drop a xs)"

text \<open>\<^verbatim>\<open>a[r0:r1, c0:c1]\<close> on a two-dimensional array.\<close>

definition slice2 :: "array2 \<Rightarrow> nat \<Rightarrow> nat \<Rightarrow> nat \<Rightarrow> nat \<Rightarrow> array2" where
  "slice2 a r0 r1 c0 c1 = map (\<lambda>row. slice_py row c0 c1) (slice_py a r0 r1)"

text \<open>
  \<^verbatim>\<open>a[i,:] = v\<close> for a two-dimensional value \<open>v\<close>: the index is checked first, then \<open>v\<close> is
  broadcast to the row: a value of shape \<open>(1, n)\<close> fits a row of \<open>n\<close> columns, a value of
  shape \<open>(1, 1)\<close> is repeated, and every other shape is a \<^verbatim>\<open>ValueError\<close>.
\<close>

definition setitem_row :: "array2 \<Rightarrow> nat \<Rightarrow> array2 \<Rightarrow> error + array2" where
  "setitem_row a i v =
     (if length a \<le> i then Inl (IndexError ''index is out of bounds for axis 0'')
      else case v of
          [r] \<Rightarrow>
            if length r = length (a ! i) then Inr (a[i := r])
            else if length r = 1 then Inr (a[i := replicate (length (a ! i)) (hd r)])
            else Inl (ValueError ''could not broadcast input array'')
        | _ \<Rightarrow> Inl (ValueError ''could not broadcast input array''))"

subsection \<open>regress_rois\<close>

text \<open>
  The three arguments of \<^verbatim>\<open>regress_rois\<close> are array objects passed by reference; the record
  holds the contents of the three (distinct) objects, and the function is a transformer of
  that state, so that the in-place assignment \<^verbatim>\<open>roi_proposals[i,:] = regressed_rois\<close> is
  visible.  Labels are Python integers (\<^typ>\<open>int\<close>).  The outcome \<open>Some e\<close> says that the
  exception \<open>e\<close> left the function, with the arrays as they were at that moment; with the
  outcome \<open>None\<close> the value of \<^verbatim>\<open>return roi_proposals\<close> is the array object the caller
  passed, that is the field \<open>roi_proposals\<close> of the final state.

  \<^verbatim>\<open>bbox_transform_inv\<close> lives in \<^verbatim>\<open>lib/fast_rcnn/bbox_transform.py\<close>, which is not part of
  the sources at hand; it is the parameter \<open>bti\<close>, a function from a one-row slice of boxes
  and a one-row slice of deltas to a fresh array, which may raise.
\<close>

record arrays =
  roi_proposals :: array2
  roi_regression_factors :: array2
  labels :: "int list"

type_synonym transform = "array2 \<Rightarrow> array2 \<Rightarrow> error + array2"

text \<open>One iteration of the loop body, for an index \<open>i < len(labels)\<close>.\<close>

definition regress_roi :: "transform \<Rightarrow> nat \<Rightarrow> arrays \<Rightarrow> arrays \<times> error option" where
  "regress_roi bti i s =
     (let label = labels s ! i in
      if label > 0 then
        (let deltas = slice2 (roi_regression_factors s) i (i + 1)
                        (nat (label * 4)) (nat ((label + 1) * 4));
             roi_coords = slice_py (roi_proposals s) i (i + 1)
         in case bti roi_coords deltas of
              Inl e \<Rightarrow> (s, Some e)
            | Inr regressed_rois \<Rightarrow>
                (case setitem_row (roi_proposals s) i regressed_rois of
                   Inl e \<Rightarrow> (s, Some e)
                 | Inr p \<Rightarrow> (s\<lparr>roi_proposals := p\<rparr>, None)))
      else (s, None))"

fun regress_loop :: "transform \<Rightarrow> nat list \<Rightarrow> arrays \<Rightarrow> arrays \<times> error option" where
  "regress_loop bti [] s = (s, None)"
| "regress_loop bti (i # ids) s =
     (case regress_roi bti i s of
        (s', Some e) \<Rightarrow> (s', Some e)
      | (s', None) \<Rightarrow> regress_loop bti ids s')"

text \<open>\<^verbatim>\<open>for i in range(len(labels))\<close>: the range is computed once, before the loop.\<close>

definition regress_rois :: "transform \<Rightarrow> arrays \<Rightarrow> arrays \<times> error option" where
  "regress_rois bti s = regress_loop bti [0..<length (labels s)] s"

text \<open>
  Modelled from the spec: \<^verbatim>\<open>bbox_transform_inv\<close> is missing from the sources, and the
  specification describes it as \<open>decodeDelta\<close> (section 4.1), the inverse of
  \<open>dx = (gt.cx - anchor.cx) / anchor.w\<close>, \<open>dw = log (gt.w / anchor.w)\<close> on the centre form
  of a corner-form box.  It only serves as a concrete instance of the parameter \<open>bti\<close>.
\<close>

definition decodeDelta :: "array1 \<Rightarrow> array1 \<Rightarrow> array1" where
  "decodeDelta box delta =
     (let w = box ! 2 - box ! 0; h = box ! 3 - box ! 1;
          cx = box ! 0 + w / 2; cy = box ! 1 + h / 2;
          pcx = delta ! 0 * w + cx; pcy = delta ! 1 * h + cy;
          pw = exp (delta ! 2) * w; ph = exp (delta ! 3) * h
      in [pcx - pw / 2, pcy - ph / 2, pcx + pw / 2, pcy + ph / 2])"

definition decode_rows :: transform where
  "decode_rows boxes deltas =
     (case (boxes, deltas) of
        ([b], [d]) \<Rightarrow>
          if length b = 4 \<and> length d = 4 then Inr [decodeDelta b d]
          else Inl (ValueError ''operands could not be broadcast together'')
      | _ \<Rightarrow> Inl (ValueError ''operands could not be broadcast together''))"

subsection \<open>Class selection and box regression at inference\<close>

text \<open>
  \<^verbatim>\<open>argmax\<close> returns the first index of the maximum and raises on an empty sequence, and so
  does \<^verbatim>\<open>max\<close>; along axis 1 they are applied to every row.
\<close>

fun argmax_from :: "nat \<Rightarrow> real \<Rightarrow> nat \<Rightarrow> array1 \<Rightarrow> nat" where
  "argmax_from best v i [] = best"
| "argmax_from best v i (x # xs) =
     (if v < x then argmax_from i x (Suc i) xs else argmax_from best v (Suc i) xs)"

definition argmax :: "array1 \<Rightarrow> error + int" where
  "argmax xs =
     (case xs of
        [] \<Rightarrow> Inl (ValueError ''attempt to get argmax of an empty sequence'')
      | x # xs' \<Rightarrow> Inr (int (argmax_from 0 x 1 xs')))"

definition amax :: "array1 \<Rightarrow> error + real" where
  "amax xs =
     (case xs of
        [] \<Rightarrow> Inl (ValueError ''zero-size array to reduction operation maximum'')
      | x # xs' \<Rightarrow> Inr (fold max xs' x))"

fun map_rows :: "('a \<Rightarrow> error + 'b) \<Rightarrow> 'a list \<Rightarrow> error + 'b list" where
  "map_rows f [] = Inr []"
| "map_rows f (x # xs) =
     (case f x of
        Inl e \<Rightarrow> Inl e
      | Inr y \<Rightarrow> (case map_rows f xs of Inl e \<Rightarrow> Inl e | Inr ys \<Rightarrow> Inr (y # ys)))"

record net_output =
  out_cls_pred :: array2
  out_rpn_rois :: array2
  out_bbox_regr :: array2

record detections =
  det_labels :: "int list"
  det_scores :: "real list"
  regressed_rois :: array2

text \<open>
  The three statements \<^verbatim>\<open>labels = out_cls_pred.argmax(axis=1)\<close>,
  \<^verbatim>\<open>scores = out_cls_pred.max(axis=1).tolist()\<close> and
  \<^verbatim>\<open>regressed_rois = regress_rois(out_rpn_rois, out_bbox_regr, labels)\<close> of both evaluation
  functions.
\<close>

definition regress_output :: "transform \<Rightarrow> net_output \<Rightarrow> error + detections" where
  "regress_output bti out =
     (case map_rows argmax (out_cls_pred out) of
        Inl e \<Rightarrow> Inl e
      | Inr ls \<Rightarrow>
          (case map_rows amax (out_cls_pred out) of
             Inl e \<Rightarrow> Inl e
           | Inr scores \<Rightarrow>
               (case regress_rois bti
                       \<lparr>roi_proposals = out_rpn_rois out,
                        roi_regression_factors = out_bbox_regr out,
                        labels = ls\<rparr> of
                  (s', Some e) \<Rightarrow> Inl e
                | (s', None) \<Rightarrow>
                    Inr \<lparr>det_labels = ls, det_scores = scores,
                         regressed_rois = roi_proposals s'\<rparr>)))"

text \<open>
  What the code relies on from \<^verbatim>\<open>bbox_transform_inv\<close>: applied to one box of four
  coordinates and one slice of four deltas it returns one box of four coordinates.
\<close>

definition shaped :: "transform \<Rightarrow> bool" where
  "shaped bti =
     (\<forall>b d. length b = 4 \<and> length d = 4 \<longrightarrow> (\<exists>r. bti [b] [d] = Inr [r] \<and> length r = 4))"

text \<open>The delta slice \<^verbatim>\<open>roi_regression_factors[i:i+1, label*4:(label+1)*4]\<close> of row \<open>i\<close>.\<close>

definition row_deltas :: "arrays \<Rightarrow> nat \<Rightarrow> array1" where
  "row_deltas s i =
     slice_py (roi_regression_factors s ! i)
       (nat (labels s ! i * 4)) (nat ((labels s ! i + 1) * 4))"

subsection \<open>Module configuration\<close>

text \<open>
  The module reads its configuration from \<^verbatim>\<open>cfg["CNTK"]\<close> (file \<^verbatim>\<open>lib/fast_rcnn/config.py\<close>,
  not among the sources): the record \<open>settings\<close> holds the entries the module reads.
  Paths are strings, joined by \<^verbatim>\<open>os.path.join\<close> with the separator \<open>/\<close>.
\<close>

record settings =
  DATASET :: string
  BASE_MODEL :: string
  INPUT_ROIS_PER_IMAGE :: nat
  MAX_EPOCHS :: nat
  DEBUG_OUTPUT :: bool

definition path_join :: "string \<Rightarrow> string list \<Rightarrow> string" where
  "path_join p cs = foldl (\<lambda>a c. a @ ''/'' @ c) p cs"

record dataset_globals =
  classes :: "string list"
  base_path :: string
  train_map_file :: string
  test_map_file :: string
  train_roi_file :: string
  test_roi_file :: string
  num_classes :: nat
  epoch_size :: nat
  num_test_images :: nat

record model_globals =
  base_model_file :: string
  feature_node_name :: string
  last_conv_node_name :: string
  start_train_conv_node_name :: "string option"
  pool_node_name :: string
  last_hidden_node_name :: string
  roi_dim :: nat

text \<open>The \<^verbatim>\<open>if dataset == ... elif ... else: raise ValueError\<close> chain of the module body.\<close>

definition dataset_setup :: "string \<Rightarrow> string \<Rightarrow> error + dataset_globals" where
  "dataset_setup abs_path dataset =
     (if dataset = ''Grocery'' then
        (let cs = [''__background__'',
                   ''avocado'', ''orange'', ''butter'', ''champagne'', ''eggBox'', ''gerkin'',
                   ''joghurt'', ''ketchup'', ''orangeJuice'', ''onion'', ''pepper'', ''tomato'',
                   ''water'', ''milk'', ''tabasco'', ''mustard''];
             bp = path_join abs_path [''Data'', ''Grocery'']
         in Inr \<lparr>classes = cs, base_path = bp,
                 train_map_file = path_join bp [''train.imgMap.txt''],
                 test_map_file = path_join bp [''test.imgMap.txt''],
                 train_roi_file = path_join bp [''train.GTRois.txt''],
                 test_roi_file = path_join bp [''test.GTRois.txt''],
                 num_classes = length cs, epoch_size = 20, num_test_images = 5\<rparr>)
      else if dataset = ''Pascal'' then
        (let cs = [''__background__'',
                   ''aeroplane'', ''bicycle'', ''bird'', ''boat'', ''bottle'', ''bus'', ''car'',
                   ''cat'', ''chair'', ''cow'', ''diningtable'', ''dog'', ''horse'', ''motorbike'',
                   ''person'', ''pottedplant'', ''sheep'', ''sofa'', ''train'', ''tvmonitor''];
             bp = path_join abs_path [''Data'', ''Pascal'']
         in Inr \<lparr>classes = cs, base_path = bp,
                 train_map_file = path_join bp [''trainval2007.txt''],
                 test_map_file = path_join bp [''test2007.txt''],
                 train_roi_file = path_join bp [''trainval2007_rois_topleft_wh_rel.txt''],
                 test_roi_file = path_join bp [''test2007_rois_topleft_wh_rel.txt''],
                 num_classes = length cs, epoch_size = 5010, num_test_images = 4952\<rparr>)
      else Inl (ValueError (''unknown data set: '' @ dataset)))"

definition model_setup :: "string \<Rightarrow> string \<Rightarrow> error + model_globals" where
  "model_setup abs_path base_model_to_use =
     (let model_folder = path_join abs_path [''..'', ''..'', ''PretrainedModels''] in
      if base_model_to_use = ''AlexNet'' then
        Inr \<lparr>base_model_file = path_join model_folder [''AlexNet.model''],
             feature_node_name = ''features'', last_conv_node_name = ''conv5.y'',
             start_train_conv_node_name = None, pool_node_name = ''pool3'',
             last_hidden_node_name = ''h2_d'', roi_dim = 6\<rparr>
      else if base_model_to_use = ''VGG16'' then
        Inr \<lparr>base_model_file = path_join model_folder [''VGG16_ImageNet.cntkmodel''],
             feature_node_name = ''data'', last_conv_node_name = ''conv5_3'',
             start_train_conv_node_name = None, pool_node_name = ''pool5'',
             last_hidden_node_name = ''drop7'', roi_dim = 7\<rparr>
      else Inl (ValueError (''unknown base model: '' @ base_model_to_use)))"

text \<open>
  The module body runs the dataset block, then the model block; the first \<^verbatim>\<open>raise\<close> ends the
  import of the module.
\<close>

definition module_setup ::
  "string \<Rightarrow> settings \<Rightarrow> error + dataset_globals \<times> model_globals" where
  "module_setup abs_path cfg =
     (case dataset_setup abs_path (DATASET cfg) of
        Inl e \<Rightarrow> Inl e
      | Inr d \<Rightarrow>
          (case model_setup abs_path (BASE_MODEL cfg) of
             Inl e \<Rightarrow> Inl e
           | Inr m \<Rightarrow> Inr (d, m)))"

text \<open>
  The steps of the \<^verbatim>\<open>__main__\<close> block, in the order the block starts them, with the module
  constants \<^verbatim>\<open>train_e2e = True\<close> and \<^verbatim>\<open>make_mode = False\<close>; \<open>model_exists\<close> is the
  answer of \<^verbatim>\<open>os.path.exists(model_path)\<close>.  The change of directory and the creation
  of the output directories at the head of the block are left out; what the steps do
  (training, serialisation, plotting) belongs to the framework.
\<close>

datatype step =
    LoadExistingModel
  | TrainE2E
  | TrainAlternating
  | CreateEvalModel
  | SaveEvalModel
  | PlotEvalGraph
  | EvalPlot

definition train_e2e :: bool where
  "train_e2e = True"

definition make_mode :: bool where
  "make_mode = False"

definition main_steps :: "bool \<Rightarrow> bool \<Rightarrow> step list" where
  "main_steps model_exists debug_output =
     (if model_exists \<and> make_mode then [LoadExistingModel]
      else [if train_e2e then TrainE2E else TrainAlternating, CreateEvalModel, SaveEvalModel]
           @ (if debug_output then [PlotEvalGraph] else []))
     @ (if debug_output then [EvalPlot] else [])"

text \<open>
  Running the file as a script: the module body first, and the \<^verbatim>\<open>__main__\<close> block only when
  the body has not raised.
\<close>

definition run_script ::
  "string \<Rightarrow> settings \<Rightarrow> bool \<Rightarrow> (error + dataset_globals \<times> model_globals) \<times> step list" where
  "run_script abs_path cfg model_exists =
     (case module_setup abs_path cfg of
        Inl e \<Rightarrow> (Inl e, [])
      | Inr g \<Rightarrow> (Inr g, main_steps model_exists (DEBUG_OUTPUT cfg)))"

subsection \<open>create_mb_source\<close>

text \<open>
  \<open>path_exists\<close> is \<^verbatim>\<open>os.path.exists\<close> on the file system of the run.  The reader that
  \<^verbatim>\<open>MinibatchSource\<close> builds is recorded by the arguments the deserialisers are given.
\<close>

record reader =
  image_map :: string
  roi_map :: string
  rois_dim :: nat
  scale_width :: nat
  scale_height :: nat
  scale_channels :: nat
  pad_value :: nat
  randomize :: bool

definition missing_files_message :: "string \<Rightarrow> string \<Rightarrow> string" where
  "missing_files_message img_map_file roi_map_file =
     ''File '' @ [CHR 0x27] @ img_map_file @ [CHR 0x27] @ '' or '' @ [CHR 0x27] @ roi_map_file
       @ [CHR 0x27] @ '' does not exist. ''
       @ ''Please run install_fastrcnn.py from Examples/Image/Detection/FastRCNN to fetch them''"

definition create_mb_source ::
  "(string \<Rightarrow> bool) \<Rightarrow> string \<Rightarrow> string \<Rightarrow> nat \<Rightarrow> nat \<Rightarrow> nat \<Rightarrow> nat \<Rightarrow> bool
     \<Rightarrow> error + reader" where
  "create_mb_source path_exists img_map_file roi_map_file img_height img_width img_channels
       n_rois rand =
     (let rois_dim = 5 * n_rois in
      if \<not> path_exists img_map_file \<or> \<not> path_exists roi_map_file then
        Inl (RuntimeError (missing_files_message img_map_file roi_map_file))
      else
        Inr \<lparr>image_map = img_map_file, roi_map = roi_map_file, rois_dim = rois_dim,
             scale_width = img_width, scale_height = img_height,
             scale_channels = img_channels, pad_value = 114, randomize = rand\<rparr>)"

subsection \<open>clone_model\<close>

text \<open>
  \<^verbatim>\<open>find_by_name\<close> returns a node of the model or \<^verbatim>\<open>None\<close>.  \<^verbatim>\<open>print\<close> is an effect: the
  function returns what it printed with its result.  The placeholders are fresh objects,
  numbered in the order of their creation; \<^verbatim>\<open>dict(zip(...))\<close> keeps, for a key that occurs
  twice, the last value.  \<open>combine_clone\<close> is the framework call
  \<^verbatim>\<open>combine(to_nodes).clone(clone_method, input_placeholders)\<close>, which may raise.
\<close>

datatype clone_method = CloneMethod_clone | CloneMethod_freeze | CloneMethod_share

datatype 'n message =
    FromNodesNotFound "string list" "'n option list"
  | ToNodesNotFound "string list" "'n option list"

definition clone_model ::
  "('m \<Rightarrow> string \<Rightarrow> 'n option)
     \<Rightarrow> ('n option list \<Rightarrow> clone_method \<Rightarrow> ('n option \<rightharpoonup> nat) \<Rightarrow> error + 'net)
     \<Rightarrow> 'm \<Rightarrow> string list \<Rightarrow> string list \<Rightarrow> clone_method
     \<Rightarrow> 'n message list \<times> (error + 'net)" where
  "clone_model find_by_name combine_clone base_model from_node_names to_node_names method =
     (let from_nodes = map (find_by_name base_model) from_node_names;
          out1 = (if None \<in> set from_nodes
                  then [FromNodesNotFound from_node_names from_nodes] else []);
          to_nodes = map (find_by_name base_model) to_node_names;
          out2 = (if None \<in> set to_nodes
                  then [ToNodesNotFound to_node_names to_nodes] else []);
          input_placeholders = Map.empty(from_nodes [\<mapsto>] [0..<length from_nodes]);
          cloned_net = combine_clone to_nodes method input_placeholders
      in (out1 @ out2, cloned_net))"

subsection \<open>eval_faster_rcnn_mAP\<close>

text \<open>\<^verbatim>\<open>xs.reshape((rows, cols))\<close> of a flat array: the sizes have to agree.\<close>

definition reshape2 :: "array1 \<Rightarrow> nat \<Rightarrow> nat \<Rightarrow> error + array2" where
  "reshape2 xs rows cols =
     (if length xs = rows * cols
      then Inr (map (\<lambda>r. slice_py xs (r * cols) (r * cols + cols)) [0..<rows])
      else Inl (ValueError ''cannot reshape array''))"

text \<open>
  The ground-truth rows of an image: \<^verbatim>\<open>gt_row.reshape((num_input_rois, 5))\<close>, then
  \<^verbatim>\<open>gt_boxes[np.where(gt_boxes[:,-1] > 0)]\<close>: the last column, the indices where it is
  positive, and the rows at these indices.
\<close>

definition ground_truth_boxes :: "nat \<Rightarrow> array1 \<Rightarrow> error + array2" where
  "ground_truth_boxes num_input_rois gt_row =
     (case reshape2 gt_row num_input_rois 5 of
        Inl e \<Rightarrow> Inl e
      | Inr gt_boxes \<Rightarrow>
          (let last_column = map last gt_boxes;
               where_positive = filter (\<lambda>k. last_column ! k > 0) [0..<length last_column]
           in Inr (map (\<lambda>k. gt_boxes ! k) where_positive)))"

text \<open>
  What the function takes from outside: the minibatch reader (the flat ground-truth row of
  the \<open>i\<close>-th test image; the reader is sequential, \<^verbatim>\<open>randomize=False\<close>), the evaluation of
  the network on that minibatch, \<^verbatim>\<open>bbox_transform_inv\<close>, numpy's \<^verbatim>\<open>hstack\<close> (which raises a
  \<^verbatim>\<open>ValueError\<close> when it is given an array of two dimensions and one of one dimension, as
  on line 712; the properties below hold whatever it returns) and the user at the debugger
  prompt, who resumes the run or quits it (\<^verbatim>\<open>BdbQuit\<close>).
\<close>

record environment =
  next_minibatch :: "nat \<Rightarrow> error + array1"
  frcn_eval :: "nat \<Rightarrow> error + net_output"
  bbox_transform_inv :: transform
  hstack :: "array2 \<Rightarrow> array1 \<Rightarrow> error + array2"
  resume :: "nat \<Rightarrow> bool"

text \<open>
  The observable steps of the per-image loop: stopping in the debugger for image \<open>i\<close>, and
  storing the detections of class \<open>j\<close> for image \<open>i\<close> in \<^verbatim>\<open>all_boxes[j][i]\<close>.
\<close>

datatype event = Breakpoint nat | Stored nat nat

record eval_state =
  trace :: "event list"
  all_boxes :: "array2 list list"

text \<open>\<^verbatim>\<open>a[:, j]\<close>: column \<open>j\<close>, an \<^verbatim>\<open>IndexError\<close> when the rows are shorter.\<close>

definition column :: "array2 \<Rightarrow> nat \<Rightarrow> error + array1" where
  "column a j =
     (if \<exists>row\<in>set a. length row \<le> j
      then Inl (IndexError ''index is out of bounds for axis 1'')
      else Inr (map (\<lambda>row. row ! j) a))"

text \<open>\<^verbatim>\<open>all_boxes[j][i] = v\<close> on the list of lists.\<close>

definition store_boxes :: "array2 list list \<Rightarrow> nat \<Rightarrow> nat \<Rightarrow> array2 \<Rightarrow> error + array2 list list" where
  "store_boxes ab j i v =
     (if length ab \<le> j then Inl (IndexError ''list index out of range'')
      else if length (ab ! j) \<le> i then Inl (IndexError ''list assignment index out of range'')
      else Inr (ab[j := (ab ! j)[i := v]]))"

text \<open>Lines 693 to 707: the statements of an iteration before the breakpoint.\<close>

definition image_detections ::
  "environment \<Rightarrow> nat \<Rightarrow> nat \<Rightarrow> error + array2 \<times> net_output \<times> detections" where
  "image_detections env num_input_rois i =
     (case next_minibatch env i of
        Inl e \<Rightarrow> Inl e
      | Inr gt_row \<Rightarrow>
          (case ground_truth_boxes num_input_rois gt_row of
             Inl e \<Rightarrow> Inl e
           | Inr gt_boxes \<Rightarrow>
               (case frcn_eval env i of
                  Inl e \<Rightarrow> Inl e
                | Inr out \<Rightarrow>
                    (case regress_output (bbox_transform_inv env) out of
                       Inl e \<Rightarrow> Inl e
                     | Inr det \<Rightarrow> Inr (gt_boxes, out, det)))))"

text \<open>Lines 710 to 713: \<^verbatim>\<open>for j in range(1, num_classes)\<close>.\<close>

fun accumulate ::
  "environment \<Rightarrow> nat \<Rightarrow> array2 \<Rightarrow> array2 \<Rightarrow> nat list \<Rightarrow> eval_state \<Rightarrow> eval_state \<times> error option"
  where
  "accumulate env i rois cls_pred [] st = (st, None)"
| "accumulate env i rois cls_pred (j # js) st =
     (case column cls_pred j of
        Inl e \<Rightarrow> (st, Some e)
      | Inr scores_j \<Rightarrow>
          (case hstack env rois scores_j of
             Inl e \<Rightarrow> (st, Some e)
           | Inr v \<Rightarrow>
               (case store_boxes (all_boxes st) j i v of
                  Inl e \<Rightarrow> (st, Some e)
                | Inr ab \<Rightarrow>
                    accumulate env i rois cls_pred js
                      (st\<lparr>trace := trace st @ [Stored j i], all_boxes := ab\<rparr>))))"

text \<open>One iteration of \<^verbatim>\<open>for i in range(0, num_test_images)\<close>.\<close>

definition eval_image ::
  "environment \<Rightarrow> nat \<Rightarrow> nat \<Rightarrow> nat \<Rightarrow> eval_state \<Rightarrow> eval_state \<times> error option" where
  "eval_image env num_input_rois n_classes i st =
     (case image_detections env num_input_rois i of
        Inl e \<Rightarrow> (st, Some e)
      | Inr (gt_boxes, out, det) \<Rightarrow>
          (let st1 = st\<lparr>trace := trace st @ [Breakpoint i]\<rparr> in
           if resume env i
           then accumulate env i (regressed_rois det) (out_cls_pred out) [1..<n_classes] st1
           else (st1, Some BdbQuit)))"

fun eval_images ::
  "environment \<Rightarrow> nat \<Rightarrow> nat \<Rightarrow> nat list \<Rightarrow> eval_state \<Rightarrow> eval_state \<times> error option" where
  "eval_images env num_input_rois n_classes [] st = (st, None)"
| "eval_images env num_input_rois n_classes (i # rest) st =
     (case eval_image env num_input_rois n_classes i st of
        (st', Some e) \<Rightarrow> (st', Some e)
      | (st', None) \<Rightarrow> eval_images env num_input_rois n_classes rest st')"

text \<open>
  The function: the reader is created first (an error there ends the call before any
  image), \<^verbatim>\<open>all_boxes\<close> is a table of \<open>num_classes\<close> rows of \<open>num_test_images\<close> empty
  lists, and the images are evaluated in order.  The image size and the channel count are
  the module constants \<open>1000\<close>, \<open>1000\<close> and \<open>3\<close>.
\<close>

definition eval_faster_rcnn_mAP ::
  "environment \<Rightarrow> (string \<Rightarrow> bool) \<Rightarrow> dataset_globals \<Rightarrow> nat \<Rightarrow> string \<Rightarrow> string
     \<Rightarrow> eval_state \<times> error option" where
  "eval_faster_rcnn_mAP env path_exists g num_input_rois img_map_file roi_map_file =
     (let st0 = \<lparr>trace = [],
                 all_boxes = replicate (num_classes g) (replicate (num_test_images g) [])\<rparr>
      in case create_mb_source path_exists img_map_file roi_map_file 1000 1000 3
                num_input_rois False of
           Inl e \<Rightarrow> (st0, Some e)
         | Inr minibatch_source \<Rightarrow>
             eval_images env num_input_rois (num_classes g) [0..<num_test_images g] st0)"

text \<open>In a trace, every stored detection table of an image comes after the breakpoint of
  that image.\<close>

definition breakpoint_first :: "event list \<Rightarrow> bool" where
  "breakpoint_first tr =
     (\<forall>pre j i post. tr = pre @ Stored j i # post \<longrightarrow> Breakpoint i \<in> set pre)"

subsection \<open>Network heads: create_rpn and create_fast_rcnn_predictor\<close>

text \<open>
  The graph is built by the framework; the model follows the shapes of the tensors.  A
  convolution layer of stride 1 maps \<open>(c, h, w)\<close> to its number of filters and, padded, to
  the same height and width, unpadded to \<open>h - kh + 1\<close> and \<open>w - kw + 1\<close>.  \<^verbatim>\<open>times\<close>
  contracts the last axis of its left operand with the first axis of its right operand,
  and \<^verbatim>\<open>plus\<close> adds a bias over the last axis.
\<close>

type_synonym shape = "nat list"

definition Convolution :: "nat \<times> nat \<Rightarrow> nat \<Rightarrow> bool \<Rightarrow> shape \<Rightarrow> error + shape" where
  "Convolution filter_shape num_filters pad x =
     (case x of
        [c, h, w] \<Rightarrow>
          if pad then Inr [num_filters, h, w]
          else if h < fst filter_shape \<or> w < snd filter_shape
          then Inl (ValueError ''convolution kernel larger than its input'')
          else Inr [num_filters, h - fst filter_shape + 1, w - snd filter_shape + 1]
      | _ \<Rightarrow> Inl (ValueError ''convolution needs a (c, h, w) input''))"

definition times_shape :: "shape \<Rightarrow> shape \<Rightarrow> error + shape" where
  "times_shape l r =
     (if l \<noteq> [] \<and> r \<noteq> [] \<and> last l = hd r then Inr (butlast l @ tl r)
      else Inl (ValueError ''times: the operands' shapes do not match''))"

definition plus_shape :: "shape \<Rightarrow> shape \<Rightarrow> error + shape" where
  "plus_shape a b =
     (if a \<noteq> [] \<and> b = [last a] then Inr a
      else Inl (ValueError ''plus: the operands' shapes do not match''))"

text \<open>
  \<^verbatim>\<open>create_rpn\<close> up to the two score slices: the three convolutions,
  \<^verbatim>\<open>num_anchors = int(rpn_cls_score.shape[0] / 2)\<close>,
  \<^verbatim>\<open>num_predictions = int(np.prod(rpn_cls_score.shape) / 2)\<close> and the slices
  \<^verbatim>\<open>slice(rpn_cls_score, 0, 0, num_anchors)\<close> and
  \<^verbatim>\<open>slice(rpn_cls_score, 0, num_anchors, num_anchors * 2)\<close>, each recorded as axis, begin
  and end.
\<close>

record rpn_layout =
  rpn_cls_score :: shape
  rpn_bbox_pred :: shape
  num_anchors :: nat
  num_predictions :: nat
  bg_scores :: "nat \<times> nat \<times> nat"
  fg_scores :: "nat \<times> nat \<times> nat"

definition create_rpn :: "shape \<Rightarrow> error + rpn_layout" where
  "create_rpn conv_out =
     (case Convolution (3, 3) 256 True conv_out of
        Inl e \<Rightarrow> Inl e
      | Inr rpn_conv_3x3 \<Rightarrow>
          (case Convolution (1, 1) 18 False rpn_conv_3x3 of
             Inl e \<Rightarrow> Inl e
           | Inr cls_score \<Rightarrow>
               (case Convolution (1, 1) 36 False rpn_conv_3x3 of
                  Inl e \<Rightarrow> Inl e
                | Inr bbox_pred \<Rightarrow>
                    (let n_anchors = hd cls_score div 2;
                         n_predictions = prod_list cls_score div 2
                     in Inr \<lparr>rpn_cls_score = cls_score, rpn_bbox_pred = bbox_pred,
                             num_anchors = n_anchors, num_predictions = n_predictions,
                             bg_scores = (0, 0, n_anchors),
                             fg_scores = (0, n_anchors, n_anchors * 2)\<rparr>))))"

text \<open>
  The two heads of \<^verbatim>\<open>create_fast_rcnn_predictor\<close>, from the shape of \<^verbatim>\<open>fc_out\<close>: the result
  is the pair of the shapes of \<^verbatim>\<open>cls_score\<close> and \<^verbatim>\<open>bbox_pred\<close>.
\<close>

definition create_fast_rcnn_predictor :: "nat \<Rightarrow> shape \<Rightarrow> error + shape \<times> shape" where
  "create_fast_rcnn_predictor n_classes fc_out =
     (let W_pred = [4096, n_classes]; b_pred = [n_classes];
          W_regr = [4096, n_classes * 4]; b_regr = [n_classes * 4]
      in case times_shape fc_out W_pred of
           Inl e \<Rightarrow> Inl e
         | Inr t1 \<Rightarrow>
             (case plus_shape t1 b_pred of
                Inl e \<Rightarrow> Inl e
              | Inr cls_score \<Rightarrow>
                  (case times_shape fc_out W_regr of
                     Inl e \<Rightarrow> Inl e
                   | Inr t2 \<Rightarrow>
                       (case plus_shape t2 b_regr of
                          Inl e \<Rightarrow> Inl e
                        | Inr bbox_pred \<Rightarrow> Inr (cls_score, bbox_pred)))))"

subsection \<open>load_resize_and_pad\<close>


definition np_round_div :: "int \<Rightarrow> int \<Rightarrow> int" where
  "np_round_div p q =
     (let d = p div q; r = p mod q in
      if 2 * r < q then d
      else if q < 2 * r then d + 1
      else if even d then d else d + 1)"





text \<open>The size of the resized content, \<open>(target_w, target_h)\<close> (lines 590 to 598).\<close>

definition target_size :: "int \<Rightarrow> int \<Rightarrow> int \<Rightarrow> int \<Rightarrow> int \<times> int" where
  "target_size img_width img_height width height =
     (let scale_w = img_width > img_height in
      if scale_w then (width, np_round_div (img_height * width) img_width)
      else (np_round_div (img_width * height) img_height, height))"



section \<open>Properties\<close>

subsection \<open>regress_rois: frame lemmas\<close>

lemma regress_roi_nonpositive:
  "labels s ! i \<le> 0 \<Longrightarrow> regress_roi bti i s = (s, None)"
  by (simp add: regress_roi_def)

lemma regress_loop_nonpositive:
  "\<forall>i\<in>set ids. labels s ! i \<le> 0 \<Longrightarrow> regress_loop bti ids s = (s, None)"
  by (induction ids) (simp_all add: regress_roi_nonpositive)

text \<open>
  C8: when every label is \<open>\<le> 0\<close> (no foreground example), \<^verbatim>\<open>regress_rois\<close> raises nothing
  and returns the proposal array with every row unchanged (no array is touched at all),
  whatever the shapes of the arrays and whatever \<^verbatim>\<open>bbox_transform_inv\<close> does.
\<close>

theorem regress_rois_no_foreground:
  assumes "\<forall>l\<in>set (labels s). l \<le> 0"
  shows "regress_rois bti s = (s, None)"
proof -
  have "\<forall>i\<in>set [0..<length (labels s)]. labels s ! i \<le> 0"
    using assms by simp
  then show ?thesis
    unfolding regress_rois_def by (rule regress_loop_nonpositive)
qed

theorem regress_rois_no_foreground_witness:
  "regress_rois decode_rows
     \<lparr>roi_proposals = [[1, 2, 3, 4], [5, 6, 7, 8]],
      roi_regression_factors = [[0, 0, 0, 0, 1, 1, 1, 1], [0, 0, 0, 0, 2, 2, 2, 2]],
      labels = [0, -1]\<rparr>
   = (\<lparr>roi_proposals = [[1, 2, 3, 4], [5, 6, 7, 8]],
       roi_regression_factors = [[0, 0, 0, 0, 1, 1, 1, 1], [0, 0, 0, 0, 2, 2, 2, 2]],
       labels = [0, -1]\<rparr>, None)"
  using regress_rois_no_foreground
    [of "\<lparr>roi_proposals = [[1, 2, 3, 4], [5, 6, 7, 8]],
          roi_regression_factors = [[0, 0, 0, 0, 1, 1, 1, 1], [0, 0, 0, 0, 2, 2, 2, 2]],
          labels = [0, -1]\<rparr>" decode_rows]
  by simp

lemma slice_py_row: "i < length xs \<Longrightarrow> slice_py xs i (Suc i) = [xs ! i]"
  by (simp add: slice_py_def take_Suc_conv_app_nth Cons_nth_drop_Suc[symmetric])

lemma slice2_row:
  "i < length a \<Longrightarrow> slice2 a i (Suc i) c0 c1 = [slice_py (a ! i) c0 c1]"
  by (simp add: slice2_def slice_py_row)

lemma regress_roi_positive:
  assumes "i < length (roi_proposals s)" "i < length (roi_regression_factors s)"
    and "0 < labels s ! i"
    and "bti [roi_proposals s ! i]
           [slice_py (roi_regression_factors s ! i) (nat (labels s ! i * 4)) (nat ((labels s ! i + 1) * 4))]
         = Inr [r]"
    and "length r = length (roi_proposals s ! i)"
  shows "regress_roi bti i s = (s\<lparr>roi_proposals := (roi_proposals s)[i := r]\<rparr>, None)"
  using assms by (simp add: regress_roi_def Let_def slice_py_row slice2_row setitem_row_def)

lemma slice_py_length:
  "b \<le> length xs \<Longrightarrow> length (slice_py xs a b) = b - a"
  by (simp add: slice_py_def)

lemma regress_roi_frame:
  "regress_roi bti i s = (s', r) \<Longrightarrow>
     labels s' = labels s \<and> roi_regression_factors s' = roi_regression_factors s \<and>
     length (roi_proposals s') = length (roi_proposals s) \<and>
     (\<forall>k. k \<noteq> i \<longrightarrow> roi_proposals s' ! k = roi_proposals s ! k) \<and>
     (labels s ! i \<le> 0 \<longrightarrow> s' = s)"
  by (auto simp: regress_roi_def setitem_row_def Let_def
      split: if_splits sum.splits list.splits)

lemma regress_loop_frame:
  "regress_loop bti ids s = (s', r) \<Longrightarrow>
     labels s' = labels s \<and> roi_regression_factors s' = roi_regression_factors s \<and>
     length (roi_proposals s') = length (roi_proposals s) \<and>
     (\<forall>k. (k \<notin> set ids \<or> labels s ! k \<le> 0) \<longrightarrow> roi_proposals s' ! k = roi_proposals s ! k)"
proof (induction ids arbitrary: s)
  case Nil
  then show ?case by simp
next
  case (Cons i ids)
  obtain s1 r1 where step: "regress_roi bti i s = (s1, r1)"
    by (cases "regress_roi bti i s")
  note f1 = regress_roi_frame [OF step]
  show ?case
  proof (cases r1)
    case (Some e)
    with Cons.prems step have "s' = s1" by simp
    with f1 show ?thesis by auto
  next
    case None
    with Cons.prems step have "regress_loop bti ids s1 = (s', r)" by simp
    note f2 = Cons.IH [OF this]
    show ?thesis using f1 f2 by (metis list.set_intros(1) list.set_intros(2))
  qed
qed

lemma regress_loop_rows:
  assumes "distinct ids"
    and "\<forall>i\<in>set ids. i < length (roi_proposals s) \<and> i < length (roi_regression_factors s)"
    and "\<forall>i\<in>set ids. 0 < labels s ! i \<longrightarrow>
           (\<exists>r. bti [roi_proposals s ! i] [row_deltas s i] = Inr [r] \<and> length r = length (roi_proposals s ! i))"
  shows "\<exists>s'. regress_loop bti ids s = (s', None) \<and>
           (\<forall>i\<in>set ids. 0 < labels s ! i \<longrightarrow>
              bti [roi_proposals s ! i] [row_deltas s i] = Inr [roi_proposals s' ! i])"
  using assms
proof (induction ids arbitrary: s)
  case Nil
  then show ?case by simp
next
  case (Cons i ids)
  have d: "distinct ids" and ni: "i \<notin> set ids"
    using Cons.prems(1) by simp_all
  show ?case
  proof (cases "0 < labels s ! i")
    case False
    then have step: "regress_roi bti i s = (s, None)"
      by (simp add: regress_roi_nonpositive)
    from Cons.IH [OF d, of s] Cons.prems(2,3)
    obtain s' where "regress_loop bti ids s = (s', None)"
      and "\<forall>j\<in>set ids. 0 < labels s ! j \<longrightarrow>
              bti [roi_proposals s ! j] [row_deltas s j] = Inr [roi_proposals s' ! j]"
      by auto
    with step False show ?thesis by auto
  next
    case True
    from Cons.prems(2) have il: "i < length (roi_proposals s)" "i < length (roi_regression_factors s)"
      by simp_all
    from Cons.prems(3) True obtain r
      where r: "bti [roi_proposals s ! i] [row_deltas s i] = Inr [r]"
        and lr: "length r = length (roi_proposals s ! i)"
      by auto
    define s1 where "s1 = s\<lparr>roi_proposals := (roi_proposals s)[i := r]\<rparr>"
    have step: "regress_roi bti i s = (s1, None)"
      unfolding s1_def using il True r lr
      by (intro regress_roi_positive) (simp_all add: row_deltas_def)
    have same: "\<forall>j\<in>set ids. roi_proposals s1 ! j = roi_proposals s ! j \<and> row_deltas s1 j = row_deltas s j
        \<and> labels s1 ! j = labels s ! j"
    proof
      fix j assume "j \<in> set ids"
      with ni have "j \<noteq> i" by blast
      then show "roi_proposals s1 ! j = roi_proposals s ! j \<and> row_deltas s1 j = row_deltas s j
        \<and> labels s1 ! j = labels s ! j"
        by (simp add: s1_def row_deltas_def)
    qed
    have p2: "\<forall>j\<in>set ids. j < length (roi_proposals s1) \<and> j < length (roi_regression_factors s1)"
      using Cons.prems(2) by (simp add: s1_def)
    have p3: "\<forall>j\<in>set ids. 0 < labels s1 ! j \<longrightarrow>
           (\<exists>r. bti [roi_proposals s1 ! j] [row_deltas s1 j] = Inr [r] \<and> length r = length (roi_proposals s1 ! j))"
      using Cons.prems(3) same by simp
    from Cons.IH [OF d p2 p3]
    obtain s' where loop: "regress_loop bti ids s1 = (s', None)"
      and rows: "\<forall>j\<in>set ids. 0 < labels s1 ! j \<longrightarrow>
              bti [roi_proposals s1 ! j] [row_deltas s1 j] = Inr [roi_proposals s' ! j]"
      by auto
    have "roi_proposals s' ! i = roi_proposals s1 ! i"
      using regress_loop_frame [OF loop] ni by simp
    then have ri: "roi_proposals s' ! i = r"
      using il by (simp add: s1_def)
    have "regress_loop bti (i # ids) s = (s', None)"
      using step loop by simp
    moreover have "\<forall>j\<in>set (i # ids). 0 < labels s ! j \<longrightarrow>
              bti [roi_proposals s ! j] [row_deltas s j] = Inr [roi_proposals s' ! j]"
      using rows same r ri by simp
    ultimately show ?thesis by blast
  qed
qed

lemma argmax_from_spec:
  assumes "ys = pre @ xs" "length pre = i" "b < i" "v = ys ! b"
    and "\<forall>j<i. ys ! j \<le> v" and "\<forall>j<b. ys ! j < v"
  shows "argmax_from b v i xs < length ys \<and>
         (\<forall>j<length ys. ys ! j \<le> ys ! argmax_from b v i xs) \<and>
         (\<forall>j<argmax_from b v i xs. ys ! j < ys ! argmax_from b v i xs)"
  using assms
proof (induction xs arbitrary: pre i b v)
  case Nil
  then show ?case by simp
next
  case (Cons x xs)
  have yi: "ys ! i = x"
    using Cons.prems(1,2) by (simp add: nth_append)
  have split: "ys = (pre @ [x]) @ xs" "length (pre @ [x]) = Suc i"
    using Cons.prems(1,2) by simp_all
  show ?case
  proof (cases "v < x")
    case True
    have a: "\<forall>j<Suc i. ys ! j \<le> x"
      using Cons.prems(5) True yi by (auto simp: less_Suc_eq)
    have b: "\<forall>j<i. ys ! j < x"
      using Cons.prems(5) True by fastforce
    from Cons.IH [OF split(1) split(2) lessI yi[symmetric] a b] True
    show ?thesis by simp
  next
    case False
    have a: "\<forall>j<Suc i. ys ! j \<le> v"
      using Cons.prems(5) False yi by (auto simp: less_Suc_eq)
    have "b < Suc i" using Cons.prems(3) by simp
    from Cons.IH [OF split(1) split(2) this Cons.prems(4) a Cons.prems(6)] False
    show ?thesis by simp
  qed
qed

lemma argmax_spec:
  assumes "xs \<noteq> []"
  shows "\<exists>k. argmax xs = Inr (int k) \<and> k < length xs \<and> (\<forall>j<length xs. xs ! j \<le> xs ! k) \<and>
           (\<forall>j<k. xs ! j < xs ! k)"
proof -
  obtain x xs' where xs: "xs = x # xs'"
    using assms by (cases xs) auto
  have "argmax_from 0 x 1 xs' < length xs \<and>
         (\<forall>j<length xs. xs ! j \<le> xs ! argmax_from 0 x 1 xs') \<and>
         (\<forall>j<argmax_from 0 x 1 xs'. xs ! j < xs ! argmax_from 0 x 1 xs')"
    by (rule argmax_from_spec [where pre = "[x]"]) (simp_all add: xs)
  then show ?thesis
    by (auto simp: argmax_def xs)
qed

lemma amax_spec:
  "xs \<noteq> [] \<Longrightarrow> amax xs = Inr (Max (set xs))"
proof -
  assume "xs \<noteq> []"
  then obtain x xs' where xs: "xs = x # xs'"
    by (cases xs) auto
  have "fold max xs' x = Max (set (x # xs'))"
    by (rule Max.set_eq_fold [symmetric])
  then show ?thesis
    by (simp add: amax_def xs)
qed

lemma map_rows_total:
  assumes "\<forall>x\<in>set xs. \<exists>y. f x = Inr y"
  shows "\<exists>ys. map_rows f xs = Inr ys \<and> length ys = length xs \<and>
              (\<forall>i<length xs. f (xs ! i) = Inr (ys ! i))"
  using assms
proof (induction xs)
  case Nil
  then show ?case by simp
next
  case (Cons x xs)
  then obtain y ys where "f x = Inr y" "map_rows f xs = Inr ys" "length ys = length xs"
    "\<forall>i<length xs. f (xs ! i) = Inr (ys ! i)"
    by auto
  then show ?case
    by (auto simp: nth_Cons split: nat.splits)
qed

text \<open>
  C1: for every proposal box \<open>i\<close>, the evaluation code selects a class whose score is the
  highest of that box (\<^verbatim>\<open>argmax\<close> along axis 1, with the score \<^verbatim>\<open>max\<close>), and
  \<^verbatim>\<open>regress_rois\<close> replaces the box, when the selected label is positive, with the result of
  \<^verbatim>\<open>bbox_transform_inv\<close> on the box and the delta columns \<open>[4 * label, 4 * label + 4)\<close> of the
  box's regression vector; a box whose label is not positive is kept.  The call returns
  for every well-shaped network output: \<open>n\<close> rows of at least one class score, \<open>n\<close> boxes of
  four coordinates and \<open>n\<close> regression vectors of four deltas per class.
\<close>

theorem regress_output_selects_and_regresses:
  assumes rows: "length (out_rpn_rois out) = length (out_cls_pred out)"
      "length (out_bbox_regr out) = length (out_cls_pred out)"
    and classes: "\<forall>c\<in>set (out_cls_pred out). c \<noteq> []"
    and boxes: "\<forall>b\<in>set (out_rpn_rois out). length b = 4"
    and regr: "\<forall>i<length (out_cls_pred out).
                 length (out_bbox_regr out ! i) = 4 * length (out_cls_pred out ! i)"
    and bti: "shaped bti"
  shows "\<exists>det. regress_output bti out = Inr det \<and>
           length (det_labels det) = length (out_cls_pred out) \<and>
           length (regressed_rois det) = length (out_cls_pred out) \<and>
           (\<forall>i<length (out_cls_pred out).
              0 \<le> det_labels det ! i \<and>
              nat (det_labels det ! i) < length (out_cls_pred out ! i) \<and>
              (\<forall>j<length (out_cls_pred out ! i).
                 out_cls_pred out ! i ! j \<le> out_cls_pred out ! i ! nat (det_labels det ! i)) \<and>
              det_scores det ! i = out_cls_pred out ! i ! nat (det_labels det ! i) \<and>
              (if 0 < det_labels det ! i
               then bti [out_rpn_rois out ! i]
                      [slice_py (out_bbox_regr out ! i) (4 * nat (det_labels det ! i))
                         (4 * nat (det_labels det ! i) + 4)]
                    = Inr [regressed_rois det ! i]
               else regressed_rois det ! i = out_rpn_rois out ! i))"
proof -
  let ?n = "length (out_cls_pred out)"
  let ?C = "out_cls_pred out"
  have "\<forall>c\<in>set ?C. \<exists>y. argmax c = Inr y"
    using classes argmax_spec by blast
  from map_rows_total [OF this]
  obtain ls where ls: "map_rows argmax ?C = Inr ls" "length ls = ?n"
    "\<forall>i<?n. argmax (?C ! i) = Inr (ls ! i)"
    by blast
  have "\<forall>c\<in>set ?C. \<exists>y. amax c = Inr y"
    using classes amax_spec by blast
  from map_rows_total [OF this]
  obtain sc where sc: "map_rows amax ?C = Inr sc" "length sc = ?n"
    "\<forall>i<?n. amax (?C ! i) = Inr (sc ! i)"
    by blast
  have lab: "0 \<le> ls ! i \<and> nat (ls ! i) < length (?C ! i) \<and>
             (\<forall>j<length (?C ! i). ?C ! i ! j \<le> ?C ! i ! nat (ls ! i)) \<and>
             sc ! i = ?C ! i ! nat (ls ! i)" if i: "i < ?n" for i
  proof -
    have ne: "?C ! i \<noteq> []" using classes i by simp
    from argmax_spec [OF ne] obtain k where k: "argmax (?C ! i) = Inr (int k)"
      "k < length (?C ! i)" "\<forall>j<length (?C ! i). ?C ! i ! j \<le> ?C ! i ! k"
      by blast
    with ls(3) i have lk: "ls ! i = int k" by simp
    have "sc ! i = Max (set (?C ! i))"
      using sc(3) i amax_spec [OF ne] by simp
    also have "\<dots> = ?C ! i ! k"
    proof (rule Max_eqI)
      show "finite (set (?C ! i))" by simp
      show "y \<le> ?C ! i ! k" if "y \<in> set (?C ! i)" for y
        using that k(3) by (auto simp: in_set_conv_nth)
      show "?C ! i ! k \<in> set (?C ! i)" using k(2) by simp
    qed
    finally show ?thesis using k lk by simp
  qed
  define s where "s = \<lparr>roi_proposals = out_rpn_rois out,
      roi_regression_factors = out_bbox_regr out, labels = ls\<rparr>"
  have deltas: "row_deltas s i = slice_py (out_bbox_regr out ! i) (4 * nat (ls ! i)) (4 * nat (ls ! i) + 4)"
    if "i < ?n" for i
    using lab [OF that] by (simp add: row_deltas_def s_def nat_mult_distrib nat_add_distrib mult.commute)
  have dlen: "length (row_deltas s i) = 4" if i: "i < ?n" for i
  proof -
    have "4 * nat (ls ! i) + 4 \<le> length (out_bbox_regr out ! i)"
      using lab [OF i] regr i by simp
    then show ?thesis
      by (simp add: deltas [OF i] slice_py_length)
  qed
  have blen: "length (out_rpn_rois out ! i) = 4" if "i < ?n" for i
    using boxes rows that by simp
  have h1: "distinct [0..<?n]" by simp
  have h2: "\<forall>i\<in>set [0..<?n]. i < length (roi_proposals s) \<and> i < length (roi_regression_factors s)"
    using rows by (simp add: s_def)
  have h3: "\<forall>i\<in>set [0..<?n]. 0 < labels s ! i \<longrightarrow>
           (\<exists>r. bti [roi_proposals s ! i] [row_deltas s i] = Inr [r] \<and> length r = length (roi_proposals s ! i))"
  proof (intro ballI impI)
    fix i assume "i \<in> set [0..<?n]"
    then have i: "i < ?n" by simp
    from bti blen [OF i] dlen [OF i]
    obtain r where "bti [out_rpn_rois out ! i] [row_deltas s i] = Inr [r]" "length r = 4"
      unfolding shaped_def by blast
    then show "\<exists>r. bti [roi_proposals s ! i] [row_deltas s i] = Inr [r] \<and> length r = length (roi_proposals s ! i)"
      using blen [OF i] by (simp add: s_def)
  qed
  from regress_loop_rows [OF h1 h2 h3]
  obtain s' where loop: "regress_loop bti [0..<?n] s = (s', None)"
    and pos: "\<forall>i\<in>set [0..<?n]. 0 < labels s ! i \<longrightarrow>
              bti [roi_proposals s ! i] [row_deltas s i] = Inr [roi_proposals s' ! i]"
    by blast
  note frame = regress_loop_frame [OF loop]
  have call: "regress_rois bti s = (s', None)"
    using loop ls(2) by (simp add: regress_rois_def s_def)
  define det where "det = \<lparr>det_labels = ls, det_scores = sc, regressed_rois = roi_proposals s'\<rparr>"
  have res: "regress_output bti out = Inr det"
    using ls(1) sc(1) call by (simp add: regress_output_def s_def det_def)
  have row: "if 0 < ls ! i
             then bti [out_rpn_rois out ! i]
                    [slice_py (out_bbox_regr out ! i) (4 * nat (ls ! i)) (4 * nat (ls ! i) + 4)]
                  = Inr [roi_proposals s' ! i]
             else roi_proposals s' ! i = out_rpn_rois out ! i" if i: "i < ?n" for i
  proof (cases "0 < ls ! i")
    case True
    have "labels s ! i = ls ! i" by (simp add: s_def)
    with True pos i have a: "bti [roi_proposals s ! i] [row_deltas s i] = Inr [roi_proposals s' ! i]"
      by simp
    have "roi_proposals s ! i = out_rpn_rois out ! i" by (simp add: s_def)
    with a deltas [OF i] True show ?thesis by simp
  next
    case False
    then have "labels s ! i \<le> 0" by (simp add: s_def)
    with frame have "roi_proposals s' ! i = roi_proposals s ! i" by blast
    with False show ?thesis by (simp add: s_def)
  qed
  have len: "length (roi_proposals s') = ?n"
    using frame rows by (simp add: s_def)
  show ?thesis
  proof (intro exI conjI allI impI)
    show "regress_output bti out = Inr det" by (rule res)
    show "length (det_labels det) = ?n" by (simp add: det_def ls(2))
    show "length (regressed_rois det) = ?n" by (simp add: det_def len)
  next
    fix i assume i: "i < ?n"
    show "0 \<le> det_labels det ! i" using lab [OF i] by (simp add: det_def)
    show "nat (det_labels det ! i) < length (?C ! i)" using lab [OF i] by (simp add: det_def)
    show "det_scores det ! i = ?C ! i ! nat (det_labels det ! i)"
      using lab [OF i] by (simp add: det_def)
    show "if 0 < det_labels det ! i
               then bti [out_rpn_rois out ! i]
                      [slice_py (out_bbox_regr out ! i) (4 * nat (det_labels det ! i))
                         (4 * nat (det_labels det ! i) + 4)]
                    = Inr [regressed_rois det ! i]
               else regressed_rois det ! i = out_rpn_rois out ! i"
      using row [OF i] by (simp add: det_def)
  next
    fix i j assume "i < ?n" "j < length (?C ! i)"
    then show "?C ! i ! j \<le> ?C ! i ! nat (det_labels det ! i)"
      using lab by (simp add: det_def)
  qed
qed

lemma shaped_decode_rows: "shaped decode_rows"
  by (simp add: shaped_def decode_rows_def decodeDelta_def Let_def)

theorem regress_output_selects_and_regresses_witness:
  "\<exists>det. regress_output decode_rows
     \<lparr>out_cls_pred = [[1/10, 7/10, 2/10], [8/10, 1/10, 1/10]],
      out_rpn_rois = [[0, 0, 10, 10], [2, 2, 6, 6]],
      out_bbox_regr = [[0, 0, 0, 0, 1, 0, 0, 0, 0, 0, 0, 0], [0, 0, 0, 0, 0, 0, 0, 0, 0, 0, 0, 0]]\<rparr>
     = Inr det \<and> det_labels det = [1, 0] \<and> det_scores det = [7/10, 8/10] \<and>
     regressed_rois det = [[10, 0, 20, 10], [2, 2, 6, 6]] \<and>
     decode_rows [[0, 0, 10, 10]] [[1, 0, 0, 0]] = Inr [regressed_rois det ! 0]"
proof -
  let ?out = "\<lparr>out_cls_pred = [[1/10, 7/10, 2/10], [8/10, 1/10, 1/10]],
      out_rpn_rois = [[0, 0, 10, 10], [2, 2, 6, 6]],
      out_bbox_regr = [[0, 0, 0, 0, 1, 0, 0, 0, 0, 0, 0, 0], [0, 0, 0, 0, 0, 0, 0, 0, 0, 0, 0, 0 :: real]]\<rparr>"
  have h1: "length (out_rpn_rois ?out) = length (out_cls_pred ?out)" by simp
  have h2: "length (out_bbox_regr ?out) = length (out_cls_pred ?out)" by simp
  have h3: "\<forall>c\<in>set (out_cls_pred ?out). c \<noteq> []" by simp
  have h4: "\<forall>b\<in>set (out_rpn_rois ?out). length b = 4" by simp
  have h5: "\<forall>i<length (out_cls_pred ?out).
                 length (out_bbox_regr ?out ! i) = 4 * length (out_cls_pred ?out ! i)"
    by (simp add: less_Suc_eq)
  from regress_output_selects_and_regresses [OF h1 h2 h3 h4 h5 shaped_decode_rows]
  obtain det where det: "regress_output decode_rows ?out = Inr det"
    by blast
  have "regress_output decode_rows ?out
      = Inr \<lparr>det_labels = [1, 0], det_scores = [7/10, 8/10],
          regressed_rois = [[10, 0, 20, 10], [2, 2, 6, 6]]\<rparr>"
    by (simp add: regress_output_def argmax_def amax_def regress_rois_def regress_roi_def
      slice2_def slice_py_def setitem_row_def decode_rows_def decodeDelta_def Let_def upt_rec)
  with det have "det = \<lparr>det_labels = [1, 0], det_scores = [7/10, 8/10],
          regressed_rois = [[10, 0, 20, 10], [2, 2, 6, 6]]\<rparr>"
    by simp
  with det show ?thesis
    by (simp add: decode_rows_def decodeDelta_def Let_def)
qed

text \<open>
  C2 (as amended): \<^verbatim>\<open>regress_rois\<close> is a function of the contents of its three arrays and
  it leaves \<^verbatim>\<open>roi_regression_factors\<close> and \<^verbatim>\<open>labels\<close> unmodified, whether it returns or
  raises; the array \<^verbatim>\<open>roi_proposals\<close> keeps its number of rows and every row whose label is
  \<open>\<le> 0\<close> (or that has no label), and the other rows are overwritten in place: the array
  the caller passed is the array that is returned.
\<close>

theorem regress_rois_frame:
  assumes "regress_rois bti s = (s', r)"
  shows "labels s' = labels s \<and>
         roi_regression_factors s' = roi_regression_factors s \<and>
         length (roi_proposals s') = length (roi_proposals s) \<and>
         (\<forall>i<length (roi_proposals s).
            length (labels s) \<le> i \<or> labels s ! i \<le> 0 \<longrightarrow>
            roi_proposals s' ! i = roi_proposals s ! i) \<and>
         (\<forall>t. roi_proposals t = roi_proposals s \<and>
              roi_regression_factors t = roi_regression_factors s \<and>
              labels t = labels s \<longrightarrow> regress_rois bti t = (s', r))"
proof -
  have loop: "regress_loop bti [0..<length (labels s)] s = (s', r)"
    using assms by (simp add: regress_rois_def)
  note frame = regress_loop_frame [OF loop]
  have rows: "roi_proposals s' ! i = roi_proposals s ! i"
    if "length (labels s) \<le> i \<or> labels s ! i \<le> 0" for i
  proof -
    from that have "i \<notin> set [0..<length (labels s)] \<or> labels s ! i \<le> 0" by auto
    with frame show ?thesis by blast
  qed
  have det: "regress_rois bti t = (s', r)"
    if "roi_proposals t = roi_proposals s \<and>
        roi_regression_factors t = roi_regression_factors s \<and> labels t = labels s" for t :: arrays
  proof -
    from that have "t = s" by simp
    with assms show ?thesis by simp
  qed
  from frame rows det show ?thesis by blast
qed

theorem regress_rois_frame_witness:
  "regress_rois decode_rows
     \<lparr>roi_proposals = [[0, 0, 10, 10], [2, 2, 6, 6]],
      roi_regression_factors = [[0, 0, 0, 0, 1, 0, 0, 0], [0, 0, 0, 0, 1, 0, 0, 0]],
      labels = [1, 0]\<rparr>
   = (\<lparr>roi_proposals = [[10, 0, 20, 10], [2, 2, 6, 6]],
       roi_regression_factors = [[0, 0, 0, 0, 1, 0, 0, 0], [0, 0, 0, 0, 1, 0, 0, 0]],
       labels = [1, 0]\<rparr>, None) \<and>
   [[10, 0, 20, 10], [2, 2, 6, 6]] ! 1 = [2, 2, 6, 6 :: real]"
proof -
  let ?s = "\<lparr>roi_proposals = [[0, 0, 10, 10], [2, 2, 6, 6 :: real]],
      roi_regression_factors = [[0, 0, 0, 0, 1, 0, 0, 0], [0, 0, 0, 0, 1, 0, 0, 0 :: real]],
      labels = [1, 0 :: int]\<rparr>"
  let ?s' = "\<lparr>roi_proposals = [[10, 0, 20, 10], [2, 2, 6, 6 :: real]],
       roi_regression_factors = [[0, 0, 0, 0, 1, 0, 0, 0], [0, 0, 0, 0, 1, 0, 0, 0 :: real]],
       labels = [1, 0 :: int]\<rparr>"
  have run: "regress_rois decode_rows ?s = (?s', None)"
    by (simp add: regress_rois_def regress_roi_def
      slice2_def slice_py_def setitem_row_def decode_rows_def decodeDelta_def Let_def upt_rec)
  from regress_rois_frame [OF run] have "roi_proposals ?s' ! 1 = roi_proposals ?s ! 1"
    by simp
  with run show ?thesis by simp
qed

text \<open>
  The claim as the specification states it fails: after the call the caller's
  \<^verbatim>\<open>roi_proposals\<close> array no longer holds the proposals it was given.
\<close>

theorem regress_rois_mutates_proposals:
  "roi_proposals (fst (regress_rois decode_rows
     \<lparr>roi_proposals = [[0, 0, 10, 10], [2, 2, 6, 6]],
      roi_regression_factors = [[0, 0, 0, 0, 1, 0, 0, 0], [0, 0, 0, 0, 1, 0, 0, 0]],
      labels = [1, 0]\<rparr>))
   \<noteq> [[0, 0, 10, 10], [2, 2, 6, 6]]"
  by (simp add: regress_rois_def regress_roi_def
      slice2_def slice_py_def setitem_row_def decode_rows_def decodeDelta_def Let_def upt_rec)

subsection \<open>Configuration and input files\<close>

lemma dataset_setup_unknown:
  "dataset \<notin> {''Grocery'', ''Pascal''} \<Longrightarrow>
     dataset_setup abs_path dataset = Inl (ValueError (''unknown data set: '' @ dataset))"
  by (simp add: dataset_setup_def)

lemma dataset_setup_known:
  "dataset \<in> {''Grocery'', ''Pascal''} \<Longrightarrow> \<exists>d. dataset_setup abs_path dataset = Inr d"
  by (auto simp: dataset_setup_def Let_def)

lemma model_setup_unknown:
  "base_model \<notin> {''AlexNet'', ''VGG16''} \<Longrightarrow>
     model_setup abs_path base_model = Inl (ValueError (''unknown base model: '' @ base_model))"
  by (simp add: model_setup_def)

lemma model_setup_known:
  "base_model \<in> {''AlexNet'', ''VGG16''} \<Longrightarrow> \<exists>m. model_setup abs_path base_model = Inr m"
  by (auto simp: model_setup_def Let_def)

text \<open>
  C4: a configuration whose dataset name is neither \<open>Grocery\<close> nor \<open>Pascal\<close> ends the
  module body with a \<^verbatim>\<open>ValueError\<close> that names the dataset, and a known dataset with a base
  model that is neither \<open>AlexNet\<close> nor \<open>VGG16\<close> ends it with a \<^verbatim>\<open>ValueError\<close> that names
  the base model; in both cases no step of the \<^verbatim>\<open>__main__\<close> block (training, evaluation)
  runs.  With known identifiers the module body raises nothing and the steps run.
\<close>

theorem unknown_configuration_is_fatal:
  "(DATASET cfg \<notin> {''Grocery'', ''Pascal''} \<longrightarrow>
      run_script abs_path cfg model_exists
        = (Inl (ValueError (''unknown data set: '' @ DATASET cfg)), [])) \<and>
   (DATASET cfg \<in> {''Grocery'', ''Pascal''} \<and> BASE_MODEL cfg \<notin> {''AlexNet'', ''VGG16''} \<longrightarrow>
      run_script abs_path cfg model_exists
        = (Inl (ValueError (''unknown base model: '' @ BASE_MODEL cfg)), [])) \<and>
   (DATASET cfg \<in> {''Grocery'', ''Pascal''} \<and> BASE_MODEL cfg \<in> {''AlexNet'', ''VGG16''} \<longrightarrow>
      (\<exists>g. run_script abs_path cfg model_exists
             = (Inr g, main_steps model_exists (DEBUG_OUTPUT cfg))))"
proof (intro conjI impI)
  assume "DATASET cfg \<notin> {''Grocery'', ''Pascal''}"
  then have "module_setup abs_path cfg = Inl (ValueError (''unknown data set: '' @ DATASET cfg))"
    by (simp add: module_setup_def dataset_setup_unknown)
  then show "run_script abs_path cfg model_exists
        = (Inl (ValueError (''unknown data set: '' @ DATASET cfg)), [])"
    by (simp add: run_script_def)
next
  assume "DATASET cfg \<in> {''Grocery'', ''Pascal''} \<and> BASE_MODEL cfg \<notin> {''AlexNet'', ''VGG16''}"
  then have known: "DATASET cfg \<in> {''Grocery'', ''Pascal''}"
    and unknown: "BASE_MODEL cfg \<notin> {''AlexNet'', ''VGG16''}"
    by (rule conjunct1, rule conjunct2)
  from dataset_setup_known [OF known]
  obtain d where "dataset_setup abs_path (DATASET cfg) = Inr d" ..
  moreover note model_setup_unknown [OF unknown, of abs_path]
  ultimately have "module_setup abs_path cfg
      = Inl (ValueError (''unknown base model: '' @ BASE_MODEL cfg))"
    by (simp add: module_setup_def)
  then show "run_script abs_path cfg model_exists
        = (Inl (ValueError (''unknown base model: '' @ BASE_MODEL cfg)), [])"
    by (simp add: run_script_def)
next
  assume "DATASET cfg \<in> {''Grocery'', ''Pascal''} \<and> BASE_MODEL cfg \<in> {''AlexNet'', ''VGG16''}"
  then have known: "DATASET cfg \<in> {''Grocery'', ''Pascal''}"
    and known_model: "BASE_MODEL cfg \<in> {''AlexNet'', ''VGG16''}"
    by (rule conjunct1, rule conjunct2)
  from dataset_setup_known [OF known]
  obtain d where "dataset_setup abs_path (DATASET cfg) = Inr d" ..
  moreover from model_setup_known [OF known_model]
  obtain m where "model_setup abs_path (BASE_MODEL cfg) = Inr m" ..
  ultimately have "module_setup abs_path cfg = Inr (d, m)"
    by (simp add: module_setup_def)
  then show "\<exists>g. run_script abs_path cfg model_exists
             = (Inr g, main_steps model_exists (DEBUG_OUTPUT cfg))"
    by (simp add: run_script_def)
qed

theorem unknown_configuration_is_fatal_witness:
  "run_script ''/repo''
     \<lparr>DATASET = ''Coco'', BASE_MODEL = ''VGG16'', INPUT_ROIS_PER_IMAGE = 50, MAX_EPOCHS = 20,
      DEBUG_OUTPUT = False\<rparr> False
     = (Inl (ValueError ''unknown data set: Coco''), []) \<and>
   run_script ''/repo''
     \<lparr>DATASET = ''Pascal'', BASE_MODEL = ''ResNet'', INPUT_ROIS_PER_IMAGE = 50, MAX_EPOCHS = 20,
      DEBUG_OUTPUT = False\<rparr> False
     = (Inl (ValueError ''unknown base model: ResNet''), []) \<and>
   (\<exists>g. run_script ''/repo''
     \<lparr>DATASET = ''Grocery'', BASE_MODEL = ''AlexNet'', INPUT_ROIS_PER_IMAGE = 50, MAX_EPOCHS = 20,
      DEBUG_OUTPUT = False\<rparr> False
     = (Inr g, [TrainE2E, CreateEvalModel, SaveEvalModel]))"
  using unknown_configuration_is_fatal [of
      "\<lparr>DATASET = ''Coco'', BASE_MODEL = ''VGG16'', INPUT_ROIS_PER_IMAGE = 50, MAX_EPOCHS = 20,
      DEBUG_OUTPUT = False\<rparr>" "''/repo''" False]
    unknown_configuration_is_fatal [of
      "\<lparr>DATASET = ''Pascal'', BASE_MODEL = ''ResNet'', INPUT_ROIS_PER_IMAGE = 50, MAX_EPOCHS = 20,
      DEBUG_OUTPUT = False\<rparr>" "''/repo''" False]
    unknown_configuration_is_fatal [of
      "\<lparr>DATASET = ''Grocery'', BASE_MODEL = ''AlexNet'', INPUT_ROIS_PER_IMAGE = 50, MAX_EPOCHS = 20,
      DEBUG_OUTPUT = False\<rparr>" "''/repo''" False]
  by (simp add: main_steps_def train_e2e_def make_mode_def)

text \<open>
  C5: when one of the two map files does not exist, \<^verbatim>\<open>create_mb_source\<close> raises a
  \<^verbatim>\<open>RuntimeError\<close> whose message contains the names of both files (so of every missing one)
  and builds no reader; when both exist it raises nothing and returns the reader of these
  two files.
\<close>

theorem create_mb_source_missing_files:
  "(\<not> path_exists img_map_file \<or> \<not> path_exists roi_map_file \<longrightarrow>
      create_mb_source path_exists img_map_file roi_map_file h w c n r
        = Inl (RuntimeError (missing_files_message img_map_file roi_map_file)) \<and>
      sublist img_map_file (missing_files_message img_map_file roi_map_file) \<and>
      sublist roi_map_file (missing_files_message img_map_file roi_map_file)) \<and>
   (path_exists img_map_file \<and> path_exists roi_map_file \<longrightarrow>
      (\<exists>rd. create_mb_source path_exists img_map_file roi_map_file h w c n r = Inr rd \<and>
            image_map rd = img_map_file \<and> roi_map rd = roi_map_file))"
proof -
  have "sublist img_map_file (missing_files_message img_map_file roi_map_file)"
    unfolding missing_files_message_def sublist_def
    by (metis append.assoc)
  moreover have "sublist roi_map_file (missing_files_message img_map_file roi_map_file)"
    unfolding missing_files_message_def sublist_def
    by (metis append.assoc)
  ultimately show ?thesis
    by (simp add: create_mb_source_def)
qed

theorem create_mb_source_missing_files_witness:
  "create_mb_source (\<lambda>p. p = ''test.imgMap.txt'') ''test.imgMap.txt'' ''test.GTRois.txt''
      1000 1000 3 50 False
     = Inl (RuntimeError (missing_files_message ''test.imgMap.txt'' ''test.GTRois.txt'')) \<and>
   sublist ''test.GTRois.txt'' (missing_files_message ''test.imgMap.txt'' ''test.GTRois.txt'') \<and>
   (\<exists>rd. create_mb_source (\<lambda>p. True) ''test.imgMap.txt'' ''test.GTRois.txt''
      1000 1000 3 50 False = Inr rd \<and> rois_dim rd = 250)"
  using create_mb_source_missing_files [of "\<lambda>p. p = ''test.imgMap.txt''" "''test.imgMap.txt''"
      "''test.GTRois.txt''" 1000 1000 3 50 False]
    create_mb_source_missing_files [of "\<lambda>p. True" "''test.imgMap.txt''"
      "''test.GTRois.txt''" 1000 1000 3 50 False]
  by (auto simp: create_mb_source_def)

subsection \<open>clone_model\<close>

lemma none_in_map: "None \<in> set (map f xs) \<longleftrightarrow> (\<exists>x\<in>set xs. f x = None)"
  by (induction xs) auto

text \<open>
  C10: \<^verbatim>\<open>clone_model\<close> never raises by itself: whatever \<^verbatim>\<open>find_by_name\<close> returns, the
  framework's clone is called on the nodes that were found (\<^verbatim>\<open>None\<close> included); a missing
  `from' or `to' node only adds the matching error message to the printed output, and
  nothing is printed when every node is found.
\<close>

theorem clone_model_reports_and_proceeds:
  "\<exists>out. clone_model find_by_name combine_clone base_model from_node_names to_node_names method
      = (out,
         combine_clone (map (find_by_name base_model) to_node_names) method
           (Map.empty(map (find_by_name base_model) from_node_names
              [\<mapsto>] [0..<length from_node_names]))) \<and>
     ((\<exists>name\<in>set from_node_names. find_by_name base_model name = None) \<longrightarrow>
        FromNodesNotFound from_node_names (map (find_by_name base_model) from_node_names)
          \<in> set out) \<and>
     ((\<exists>name\<in>set to_node_names. find_by_name base_model name = None) \<longrightarrow>
        ToNodesNotFound to_node_names (map (find_by_name base_model) to_node_names)
          \<in> set out) \<and>
     ((\<forall>name\<in>set (from_node_names @ to_node_names). find_by_name base_model name \<noteq> None) \<longrightarrow>
        out = [])"
proof -
  have from_none: "None \<in> set (map (find_by_name base_model) from_node_names)
      \<longleftrightarrow> (\<exists>name\<in>set from_node_names. find_by_name base_model name = None)"
    by (rule none_in_map)
  have to_none: "None \<in> set (map (find_by_name base_model) to_node_names)
      \<longleftrightarrow> (\<exists>name\<in>set to_node_names. find_by_name base_model name = None)"
    by (rule none_in_map)
  show ?thesis
    unfolding clone_model_def Let_def from_none to_none
    by (cases "\<exists>name\<in>set from_node_names. find_by_name base_model name = None";
        cases "\<exists>name\<in>set to_node_names. find_by_name base_model name = None")
       (simp_all add: ball_Un)
qed

theorem clone_model_reports_and_proceeds_witness:
  "clone_model (\<lambda>m name. if name \<in> set m then Some name else None)
      (\<lambda>outs meth subst. Inr (outs, meth, map subst outs))
      [''features'', ''conv5_3''] [''data''] [''conv5_3''] CloneMethod_freeze
    = ([FromNodesNotFound [''data''] [None]],
       Inr ([Some ''conv5_3''], CloneMethod_freeze, [None]))"
  using clone_model_reports_and_proceeds [of "\<lambda>m name. if name \<in> set m then Some name else None"
      "\<lambda>outs meth subst. Inr (outs, meth, map subst outs)"
      "[''features'', ''conv5_3'']" "[''data'']" "[''conv5_3'']" CloneMethod_freeze]
  by (auto simp: clone_model_def)

subsection \<open>Ground-truth rows\<close>

lemma gather_filter:
  "map (\<lambda>k. xs ! k) (filter (\<lambda>k. P (xs ! k)) [0..<length xs]) = filter P xs"
proof -
  have "filter P xs = filter P (map (\<lambda>k. xs ! k) [0..<length xs])"
    by (simp add: map_nth)
  also have "\<dots> = map (\<lambda>k. xs ! k) (filter (\<lambda>k. P (xs ! k)) [0..<length xs])"
    by (simp add: filter_map comp_def)
  finally show ?thesis by simp
qed

lemma slice_py_nth:
  "b \<le> length xs \<Longrightarrow> j < b - a \<Longrightarrow> slice_py xs a b ! j = xs ! (a + j)"
  by (simp add: slice_py_def)

text \<open>
  C7: of the \<open>num_input_rois\<close> rows of five numbers in the ground-truth input of an image,
  the evaluation path keeps, in their order, exactly the rows whose class label (the fifth
  component) is strictly greater than \<open>0\<close>; the rows with a label \<open>\<le> 0\<close> are the padding and
  are dropped.
\<close>

theorem ground_truth_boxes_keeps_positive_labels:
  assumes len: "length gt_row = 5 * n"
  shows "\<exists>gt. ground_truth_boxes n gt_row = Inr gt \<and>
           gt = filter (\<lambda>row. 0 < row ! 4) (map (\<lambda>k. slice_py gt_row (5 * k) (5 * k + 5)) [0..<n]) \<and>
           (\<forall>k<n. slice_py gt_row (5 * k) (5 * k + 5) \<in> set gt \<longleftrightarrow> 0 < gt_row ! (5 * k + 4))"
proof -
  define rows where "rows = map (\<lambda>k. slice_py gt_row (5 * k) (5 * k + 5)) [0..<n]"
  have rs: "reshape2 gt_row n 5 = Inr rows"
    using len by (simp add: reshape2_def rows_def mult.commute)
  have nrows: "length rows = n" by (simp add: rows_def)
  have row: "rows ! k = slice_py gt_row (5 * k) (5 * k + 5)" if "k < n" for k
    using that by (simp add: rows_def)
  have rlen: "length (rows ! k) = 5" if "k < n" for k
    using that len by (simp add: row slice_py_length)
  have label: "rows ! k ! 4 = gt_row ! (5 * k + 4)" if "k < n" for k
    using that len by (simp add: row slice_py_nth)
  have lastcol: "last (rows ! k) = rows ! k ! 4" if "k < n" for k
  proof -
    have "rows ! k \<noteq> []" using rlen [OF that] by auto
    then show ?thesis using rlen [OF that] by (simp add: last_conv_nth)
  qed
  have "filter (\<lambda>k. map last rows ! k > 0) [0..<length (map last rows)]
      = filter (\<lambda>k. 0 < rows ! k ! 4) [0..<length rows]"
    by (rule filter_cong) (simp_all add: nrows lastcol)
  then have "ground_truth_boxes n gt_row
      = Inr (map (\<lambda>k. rows ! k) (filter (\<lambda>k. 0 < rows ! k ! 4) [0..<length rows]))"
    by (simp add: ground_truth_boxes_def rs Let_def)
  then have res: "ground_truth_boxes n gt_row = Inr (filter (\<lambda>row. 0 < row ! 4) rows)"
    by (simp add: gather_filter [where P = "\<lambda>row. 0 < row ! 4"])
  have mem: "slice_py gt_row (5 * k) (5 * k + 5) \<in> set (filter (\<lambda>row. 0 < row ! 4) rows)
      \<longleftrightarrow> 0 < gt_row ! (5 * k + 4)" if k: "k < n" for k
  proof -
    have "rows ! k \<in> set rows" using k nrows by simp
    then show ?thesis using row [OF k] label [OF k] by simp
  qed
  show ?thesis
    using res mem by (simp add: rows_def)
qed

theorem ground_truth_boxes_keeps_positive_labels_witness:
  "ground_truth_boxes 3 [10, 10, 50, 50, 2, 0, 0, 0, 0, 0, 5, 5, 9, 9, -1]
     = Inr [[10, 10, 50, 50, 2]] \<and>
   slice_py [10, 10, 50, 50, 2, 0, 0, 0, 0, 0, 5, 5, 9, 9, -1 :: real] 0 5 = [10, 10, 50, 50, 2]"
proof -
  let ?row = "[10, 10, 50, 50, 2, 0, 0, 0, 0, 0, 5, 5, 9, 9, -1 :: real]"
  have "length ?row = 5 * 3" by simp
  from ground_truth_boxes_keeps_positive_labels [OF this]
  have "ground_truth_boxes 3 ?row
      = Inr (filter (\<lambda>row. 0 < row ! 4) (map (\<lambda>k. slice_py ?row (5 * k) (5 * k + 5)) [0..<3]))"
    by blast
  then show ?thesis
    by (simp add: slice_py_def upt_rec)
qed

subsection \<open>The breakpoint of eval_faster_rcnn_mAP\<close>

lemma breakpoint_first_Nil: "breakpoint_first []"
  by (simp add: breakpoint_first_def)

lemma breakpoint_first_snoc_Breakpoint:
  assumes "breakpoint_first tr"
  shows "breakpoint_first (tr @ [Breakpoint i])"
  unfolding breakpoint_first_def
proof (intro allI impI)
  fix pre j k post
  assume eq: "tr @ [Breakpoint i] = pre @ Stored j k # post"
  then have "post \<noteq> []"
    by (cases post rule: rev_cases) auto
  then obtain post' where post: "post = post' @ [Breakpoint i]"
    using eq by (cases post rule: rev_cases) auto
  with eq have "tr = pre @ Stored j k # post'" by simp
  with assms show "Breakpoint k \<in> set pre"
    unfolding breakpoint_first_def by blast
qed

lemma breakpoint_first_snoc_Stored:
  assumes "breakpoint_first tr" "Breakpoint i \<in> set tr"
  shows "breakpoint_first (tr @ [Stored j i])"
  unfolding breakpoint_first_def
proof (intro allI impI)
  fix pre j' k post
  assume eq: "tr @ [Stored j i] = pre @ Stored j' k # post"
  show "Breakpoint k \<in> set pre"
  proof (cases post rule: rev_cases)
    case Nil
    with eq have "tr = pre" "k = i" by simp_all
    with assms(2) show ?thesis by simp
  next
    case (snoc post' e)
    with eq have "tr = pre @ Stored j' k # post'" by simp
    with assms(1) show ?thesis
      unfolding breakpoint_first_def by blast
  qed
qed

lemma accumulate_trace:
  "\<exists>stored. trace (fst (accumulate env i rois cls js st)) = trace st @ stored \<and>
            list_all (\<lambda>e. \<exists>j. e = Stored j i) stored"
proof (induction js arbitrary: st)
  case Nil
  then show ?case by simp
next
  case (Cons j js)
  show ?case
  proof (cases "\<exists>ab v c. column cls j = Inr c \<and> hstack env rois c = Inr v \<and>
                  store_boxes (all_boxes st) j i v = Inr ab")
    case True
    then obtain ab v c where ok: "column cls j = Inr c" "hstack env rois c = Inr v"
      "store_boxes (all_boxes st) j i v = Inr ab"
      by blast
    define st1 where "st1 = st\<lparr>trace := trace st @ [Stored j i], all_boxes := ab\<rparr>"
    from Cons.IH [of st1] obtain stored
      where "trace (fst (accumulate env i rois cls js st1)) = trace st1 @ stored"
        "list_all (\<lambda>e. \<exists>j. e = Stored j i) stored"
      by blast
    then have "trace (fst (accumulate env i rois cls (j # js) st)) = trace st @ (Stored j i # stored)
        \<and> list_all (\<lambda>e. \<exists>j. e = Stored j i) (Stored j i # stored)"
      using ok by (simp add: st1_def)
    then show ?thesis by blast
  next
    case False
    then have "fst (accumulate env i rois cls (j # js) st) = st"
      by (auto split: sum.splits)
    then show ?thesis by simp
  qed
qed

lemma eval_image_trace:
  "(case image_detections env n i of
      Inl e \<Rightarrow> eval_image env n nc i st = (st, Some e)
    | Inr x \<Rightarrow>
        (\<exists>stored. trace (fst (eval_image env n nc i st)) = trace st @ Breakpoint i # stored \<and>
                  list_all (\<lambda>e. \<exists>j. e = Stored j i) stored))"
proof (cases "image_detections env n i")
  case (Inl e)
  then show ?thesis by (simp add: eval_image_def)
next
  case (Inr x)
  obtain gt out det where x: "x = (gt, out, det)" by (cases x)
  define st1 where "st1 = st\<lparr>trace := trace st @ [Breakpoint i]\<rparr>"
  show ?thesis
  proof (cases "resume env i")
    case True
    from accumulate_trace [of env i "regressed_rois det" "out_cls_pred out" "[1..<nc]" st1]
    obtain stored where
      "trace (fst (accumulate env i (regressed_rois det) (out_cls_pred out) [1..<nc] st1))
         = trace st1 @ stored" "list_all (\<lambda>e. \<exists>j. e = Stored j i) stored"
      by blast
    with True Inr x show ?thesis
      by (simp add: eval_image_def st1_def Let_def)
  next
    case False
    with Inr x show ?thesis
      by (simp add: eval_image_def Let_def)
  qed
qed

lemma breakpoint_first_extend:
  assumes "breakpoint_first tr" "list_all (\<lambda>e. \<exists>j. e = Stored j i) stored"
  shows "breakpoint_first (tr @ Breakpoint i # stored)"
  using assms(2)
proof (induction stored rule: rev_induct)
  case Nil
  then show ?case using assms(1) by (simp add: breakpoint_first_snoc_Breakpoint)
next
  case (snoc e stored)
  then obtain j where e: "e = Stored j i" by auto
  have "breakpoint_first ((tr @ Breakpoint i # stored) @ [Stored j i])"
    using snoc by (intro breakpoint_first_snoc_Stored) simp_all
  then show ?case by (simp add: e)
qed

lemma eval_image_invariant:
  assumes "breakpoint_first (trace st)"
  shows "breakpoint_first (trace (fst (eval_image env n nc i st))) \<and>
         set (trace st) \<subseteq> set (trace (fst (eval_image env n nc i st))) \<and>
         (snd (eval_image env n nc i st) = None \<longrightarrow>
            Breakpoint i \<in> set (trace (fst (eval_image env n nc i st))))"
proof (cases "image_detections env n i")
  case (Inl e)
  with eval_image_trace [where env = env and n = n and i = i and nc = nc and st = st] assms show ?thesis by simp
next
  case (Inr x)
  with eval_image_trace [where env = env and n = n and i = i and nc = nc and st = st] obtain stored
    where "trace (fst (eval_image env n nc i st)) = trace st @ Breakpoint i # stored"
      "list_all (\<lambda>e. \<exists>j. e = Stored j i) stored"
    by auto
  with breakpoint_first_extend [OF assms, of i stored] show ?thesis by auto
qed

lemma eval_images_invariant:
  assumes "breakpoint_first (trace st)"
  shows "breakpoint_first (trace (fst (eval_images env n nc ids st))) \<and>
         set (trace st) \<subseteq> set (trace (fst (eval_images env n nc ids st))) \<and>
         (snd (eval_images env n nc ids st) = None \<longrightarrow>
            (\<forall>i\<in>set ids. Breakpoint i \<in> set (trace (fst (eval_images env n nc ids st)))))"
  using assms
proof (induction ids arbitrary: st)
  case Nil
  then show ?case by simp
next
  case (Cons i ids)
  obtain st1 r1 where step: "eval_image env n nc i st = (st1, r1)"
    by (cases "eval_image env n nc i st")
  from eval_image_invariant [OF Cons.prems, of env n nc i] step
  have inv1: "breakpoint_first (trace st1)" "set (trace st) \<subseteq> set (trace st1)"
    "r1 = None \<longrightarrow> Breakpoint i \<in> set (trace st1)"
    by simp_all
  show ?case
  proof (cases r1)
    case (Some e)
    with step inv1 show ?thesis by simp
  next
    case None
    from Cons.IH [OF inv1(1)]
    have "breakpoint_first (trace (fst (eval_images env n nc ids st1)))"
      "set (trace st1) \<subseteq> set (trace (fst (eval_images env n nc ids st1)))"
      "snd (eval_images env n nc ids st1) = None \<longrightarrow>
            (\<forall>i\<in>set ids. Breakpoint i \<in> set (trace (fst (eval_images env n nc ids st1))))"
      by simp_all
    with None step inv1 show ?thesis by auto
  qed
qed

text \<open>
  C3: the breakpoint is on the unconditional path of the per-image loop.  An iteration
  either raises in the statements before the breakpoint (lines 693 to 707) and leaves the
  trace as it was, or it stops in the debugger, and only then stores detection tables, all
  of them for this image.  In the trace of a whole call every stored table of an image comes
  after the breakpoint of that image, and a call that returns has stopped at the breakpoint
  for every test image.
\<close>

theorem breakpoint_on_every_image:
  "(case image_detections env n i of
      Inl e \<Rightarrow> eval_image env n nc i st = (st, Some e)
    | Inr x \<Rightarrow>
        (\<exists>stored. trace (fst (eval_image env n nc i st)) = trace st @ Breakpoint i # stored \<and>
                  list_all (\<lambda>e. \<exists>j. e = Stored j i) stored)) \<and>
   (\<forall>st' r. eval_faster_rcnn_mAP env path_exists g n img_map_file roi_map_file = (st', r) \<longrightarrow>
      (\<forall>pre j k post. trace st' = pre @ Stored j k # post \<longrightarrow> Breakpoint k \<in> set pre) \<and>
      (r = None \<longrightarrow> (\<forall>k<num_test_images g. Breakpoint k \<in> set (trace st'))))"
proof (intro conjI allI impI)
  show "case image_detections env n i of
      Inl e \<Rightarrow> eval_image env n nc i st = (st, Some e)
    | Inr x \<Rightarrow>
        (\<exists>stored. trace (fst (eval_image env n nc i st)) = trace st @ Breakpoint i # stored \<and>
                  list_all (\<lambda>e. \<exists>j. e = Stored j i) stored)"
    by (rule eval_image_trace)
next
  fix st' r
  assume run: "eval_faster_rcnn_mAP env path_exists g n img_map_file roi_map_file = (st', r)"
  define st0 where "st0 = \<lparr>trace = [],
                 all_boxes = replicate (num_classes g) (replicate (num_test_images g) ([] :: array2))\<rparr>"
  have inv0: "breakpoint_first (trace st0)"
    by (simp add: st0_def breakpoint_first_Nil)
  note loop = eval_images_invariant [OF inv0, of env n "num_classes g" "[0..<num_test_images g]"]
  have cases: "(st', r) = eval_images env n (num_classes g) [0..<num_test_images g] st0
      \<or> (st' = st0 \<and> r \<noteq> None)"
    using run by (auto simp: eval_faster_rcnn_mAP_def st0_def Let_def split: sum.splits)
  have bf: "breakpoint_first (trace st')"
    using cases loop inv0 by (metis fst_conv)
  {
    fix pre j k post
    assume "trace st' = pre @ Stored j k # post"
    with bf show "Breakpoint k \<in> set pre"
      unfolding breakpoint_first_def by blast
  }
  {
    fix k assume "r = None" "k < num_test_images g"
    with cases have "(st', None) = eval_images env n (num_classes g) [0..<num_test_images g] st0"
      by auto
    with loop \<open>k < num_test_images g\<close> show "Breakpoint k \<in> set (trace st')"
      by (metis atLeastLessThan_iff fst_conv set_upt snd_conv zero_le)
  }
qed

lemma upt_two: "[0..<2] = [0, 1]" "[0..<1] = [0]" "[Suc 0..<2] = [Suc 0]"
  by (simp_all add: upt_rec)

lemma replicate_2: "replicate 2 x = [x, x]"
  by (simp add: numeral_2_eq_2)

lemma ground_truth_value: "ground_truth_boxes 2 [10, 10, 50, 50, 1, 0, 0, 0, 0, 0] = Inr [[10, 10, 50, 50, 1]]"
  by (simp add: ground_truth_boxes_def reshape2_def slice_py_def Let_def upt_two upt_rec [of 0 2])

lemma regress_output_value: "regress_output decode_rows \<lparr>out_cls_pred = [[1/10, 9/10]], out_rpn_rois = [[0, 0, 10, 10]],
                            out_bbox_regr = [[0, 0, 0, 0, 1, 0, 0, 0]]\<rparr>
   = Inr \<lparr>det_labels = [1], det_scores = [9/10], regressed_rois = [[10, 0, 20, 10]]\<rparr>"
    by (simp add: regress_output_def argmax_def amax_def regress_rois_def regress_roi_def
      slice2_def slice_py_def setitem_row_def decode_rows_def decodeDelta_def Let_def)

lemma regress_output_background: "regress_output decode_rows \<lparr>out_cls_pred = [[1]], out_rpn_rois = [[0, 0, 10, 10]],
                            out_bbox_regr = [[0, 0, 0, 0]]\<rparr>
   = Inr \<lparr>det_labels = [0], det_scores = [1], regressed_rois = [[0, 0, 10, 10]]\<rparr>"
    by (simp add: regress_output_def argmax_def amax_def regress_rois_def regress_roi_def Let_def)


theorem breakpoint_on_every_image_witness:
  "eval_faster_rcnn_mAP
     \<lparr>next_minibatch = (\<lambda>i. Inr [10, 10, 50, 50, 1, 0, 0, 0, 0, 0]),
      frcn_eval = (\<lambda>i. Inr \<lparr>out_cls_pred = [[1/10, 9/10]], out_rpn_rois = [[0, 0, 10, 10]],
                            out_bbox_regr = [[0, 0, 0, 0, 1, 0, 0, 0]]\<rparr>),
      bbox_transform_inv = decode_rows,
      hstack = (\<lambda>a c. Inl (ValueError ''all the input arrays must have same number of dimensions'')),
      resume = (\<lambda>i. True)\<rparr>
     (\<lambda>p. True)
     \<lparr>classes = [''__background__'', ''avocado''], base_path = ''Data'',
      train_map_file = ''train.imgMap.txt'', test_map_file = ''test.imgMap.txt'',
      train_roi_file = ''train.GTRois.txt'', test_roi_file = ''test.GTRois.txt'',
      num_classes = 2, epoch_size = 20, num_test_images = 2\<rparr>
     2 ''test.imgMap.txt'' ''test.GTRois.txt''
   = (\<lparr>trace = [Breakpoint 0], all_boxes = [[[], []], [[], []]]\<rparr>,
      Some (ValueError ''all the input arrays must have same number of dimensions'')) \<and>
   eval_faster_rcnn_mAP
     \<lparr>next_minibatch = (\<lambda>i. Inr [10, 10, 50, 50, 1, 0, 0, 0, 0, 0]),
      frcn_eval = (\<lambda>i. Inr \<lparr>out_cls_pred = [[1]], out_rpn_rois = [[0, 0, 10, 10]],
                            out_bbox_regr = [[0, 0, 0, 0]]\<rparr>),
      bbox_transform_inv = decode_rows,
      hstack = (\<lambda>a c. Inl (ValueError ''all the input arrays must have same number of dimensions'')),
      resume = (\<lambda>i. True)\<rparr>
     (\<lambda>p. True)
     \<lparr>classes = [''__background__''], base_path = ''Data'',
      train_map_file = ''train.imgMap.txt'', test_map_file = ''test.imgMap.txt'',
      train_roi_file = ''train.GTRois.txt'', test_roi_file = ''test.GTRois.txt'',
      num_classes = 1, epoch_size = 20, num_test_images = 2\<rparr>
     2 ''test.imgMap.txt'' ''test.GTRois.txt''
   = (\<lparr>trace = [Breakpoint 0, Breakpoint 1], all_boxes = [[[], []]]\<rparr>, None)"
proof -
  let ?fail = "\<lambda>(a :: array2) (c :: array1).
      (Inl (ValueError ''all the input arrays must have same number of dimensions'') :: error + array2)"
  let ?out2 = "\<lparr>out_cls_pred = [[1/10, 9/10]], out_rpn_rois = [[0, 0, 10, 10]],
                            out_bbox_regr = [[0, 0, 0, 0, 1, 0, 0, 0 :: real]]\<rparr>"
  let ?out1 = "\<lparr>out_cls_pred = [[1]], out_rpn_rois = [[0, 0, 10, 10]],
                            out_bbox_regr = [[0, 0, 0, 0 :: real]]\<rparr>"
  let ?env2 = "\<lparr>next_minibatch = (\<lambda>i. Inr [10, 10, 50, 50, 1, 0, 0, 0, 0, 0]),
      frcn_eval = (\<lambda>i. Inr ?out2),
      bbox_transform_inv = decode_rows, hstack = ?fail, resume = (\<lambda>i. True)\<rparr>"
  let ?env1 = "\<lparr>next_minibatch = (\<lambda>i. Inr [10, 10, 50, 50, 1, 0, 0, 0, 0, 0]),
      frcn_eval = (\<lambda>i. Inr ?out1),
      bbox_transform_inv = decode_rows, hstack = ?fail, resume = (\<lambda>i. True)\<rparr>"
  let ?g2 = "\<lparr>classes = [''__background__'', ''avocado''], base_path = ''Data'',
      train_map_file = ''train.imgMap.txt'', test_map_file = ''test.imgMap.txt'',
      train_roi_file = ''train.GTRois.txt'', test_roi_file = ''test.GTRois.txt'',
      num_classes = 2, epoch_size = 20, num_test_images = 2\<rparr>"
  let ?g1 = "\<lparr>classes = [''__background__''], base_path = ''Data'',
      train_map_file = ''train.imgMap.txt'', test_map_file = ''test.imgMap.txt'',
      train_roi_file = ''train.GTRois.txt'', test_roi_file = ''test.GTRois.txt'',
      num_classes = 1, epoch_size = 20, num_test_images = 2\<rparr>"
  have det2: "image_detections ?env2 2 i
      = Inr ([[10, 10, 50, 50, 1]], ?out2,
             \<lparr>det_labels = [1], det_scores = [9/10], regressed_rois = [[10, 0, 20, 10]]\<rparr>)" for i
    by (simp add: image_detections_def ground_truth_value regress_output_value)
  have det1: "image_detections ?env1 2 i
      = Inr ([[10, 10, 50, 50, 1]], ?out1,
             \<lparr>det_labels = [0], det_scores = [1], regressed_rois = [[0, 0, 10, 10]]\<rparr>)" for i
    by (simp add: image_detections_def ground_truth_value regress_output_background)
  have img2: "eval_image ?env2 2 2 i st
      = (st\<lparr>trace := trace st @ [Breakpoint i]\<rparr>,
         Some (ValueError ''all the input arrays must have same number of dimensions''))" for i st
    by (simp add: eval_image_def det2 upt_two column_def)
  have img1: "eval_image ?env1 2 (Suc 0) i st = (st\<lparr>trace := trace st @ [Breakpoint i]\<rparr>, None)" for i st
    by (simp add: eval_image_def det1 upt_two)
  have run2: "eval_faster_rcnn_mAP ?env2 (\<lambda>p. True) ?g2 2 ''test.imgMap.txt'' ''test.GTRois.txt''
      = (\<lparr>trace = [Breakpoint 0], all_boxes = [[[], []], [[], []]]\<rparr>,
         Some (ValueError ''all the input arrays must have same number of dimensions''))"
    by (simp add: eval_faster_rcnn_mAP_def create_mb_source_def upt_two img2 replicate_2)
  have run1: "eval_faster_rcnn_mAP ?env1 (\<lambda>p. True) ?g1 2 ''test.imgMap.txt'' ''test.GTRois.txt''
      = (\<lparr>trace = [Breakpoint 0, Breakpoint 1], all_boxes = [[[], []]]\<rparr>, None)"
    by (simp add: eval_faster_rcnn_mAP_def create_mb_source_def upt_two img1 replicate_2)
  have "case image_detections ?env2 2 0 of
      Inl e \<Rightarrow> eval_image ?env2 2 2 0 \<lparr>trace = [], all_boxes = [[[], []], [[], []]]\<rparr>
                 = (\<lparr>trace = [], all_boxes = [[[], []], [[], []]]\<rparr>, Some e)
    | Inr x \<Rightarrow>
        (\<exists>stored. trace (fst (eval_image ?env2 2 2 0 \<lparr>trace = [], all_boxes = [[[], []], [[], []]]\<rparr>))
            = trace \<lparr>trace = [], all_boxes = [[[], []], [[], []]]\<rparr> @ Breakpoint 0 # stored \<and>
                  list_all (\<lambda>e. \<exists>j. e = Stored j 0) stored)"
    using breakpoint_on_every_image [where env = ?env2 and n = 2 and i = 0 and nc = 2
      and st = "\<lparr>trace = [], all_boxes = [[[], []], [[], []]]\<rparr>" and g = ?g2
      and path_exists = "\<lambda>p. True" and img_map_file = "''test.imgMap.txt''"
      and roi_map_file = "''test.GTRois.txt''"]
    by (rule conjunct1)
  then have "\<exists>stored. trace (fst (eval_image ?env2 2 2 0 \<lparr>trace = [], all_boxes = [[[], []], [[], []]]\<rparr>))
      = Breakpoint 0 # stored"
    by (simp only: det2 sum.case) auto
  moreover
  from breakpoint_on_every_image [where env = ?env1 and g = ?g1 and n = 2
      and path_exists = "\<lambda>p. True" and img_map_file = "''test.imgMap.txt''"
      and roi_map_file = "''test.GTRois.txt''"] run1
  have "\<forall>k<2. Breakpoint k \<in> set [Breakpoint 0, Breakpoint 1]"
    by simp
  ultimately show ?thesis
    using run1 run2 by simp
qed

subsection \<open>Shapes of the network heads\<close>

lemma Convolution_padded: "Convolution fs n True [c, h, w] = Inr [n, h, w]"
  by (simp add: Convolution_def)

lemma Convolution_1x1: "0 < h \<Longrightarrow> 0 < w \<Longrightarrow> Convolution (1, 1) n False [c, h, w] = Inr [n, h, w]"
  by (simp add: Convolution_def)

lemma times_head: "times_shape [r, 4096] [4096, n] = Inr [r, n]"
  by (simp add: times_shape_def)

lemma plus_head: "plus_shape [r, n] [n] = Inr [r, n]"
  by (simp add: plus_shape_def)

text \<open>
  C6: on a feature map of positive height and width the RPN classification convolution
  has \<open>2 * 9 = 18\<close> output channels, \<^verbatim>\<open>num_anchors\<close> is \<open>9\<close>, the background scores are the
  channels \<open>[0, 9)\<close> and the foreground scores the channels \<open>[9, 18)\<close>; the RPN regression
  convolution has \<open>4 * 9 = 36\<close> output channels; and the regression head of the detector
  yields \<open>4 * num_classes\<close> values for each ROI.
\<close>

theorem head_channel_counts:
  assumes "0 < h" "0 < w"
  shows "\<exists>rpn. create_rpn [c, h, w] = Inr rpn \<and>
           rpn_cls_score rpn = [2 * 9, h, w] \<and> hd (rpn_cls_score rpn) = 18 \<and>
           num_anchors rpn = 9 \<and>
           bg_scores rpn = (0, 0, 9) \<and> fg_scores rpn = (0, 9, 18) \<and>
           rpn_bbox_pred rpn = [4 * 9, h, w] \<and> hd (rpn_bbox_pred rpn) = 36 \<and>
           create_fast_rcnn_predictor n_classes [n_rois, 4096]
             = Inr ([n_rois, n_classes], [n_rois, 4 * n_classes])"
proof -
  have conv: "Convolution (3, 3) 256 True [c, h, w] = Inr [256, h, w]"
    by (rule Convolution_padded)
  have cls: "Convolution (1, 1) 18 False [256, h, w] = Inr [18, h, w]"
    using assms by (rule Convolution_1x1)
  have bbox: "Convolution (1, 1) 36 False [256, h, w] = Inr [36, h, w]"
    using assms by (rule Convolution_1x1)
  have rpn: "create_rpn [c, h, w]
      = Inr \<lparr>rpn_cls_score = [18, h, w], rpn_bbox_pred = [36, h, w], num_anchors = 9,
             num_predictions = 18 * (h * w) div 2, bg_scores = (0, 0, 9), fg_scores = (0, 9, 18)\<rparr>"
    by (simp only: create_rpn_def conv cls bbox sum.case) (simp add: Let_def)
  have head: "create_fast_rcnn_predictor n_classes [n_rois, 4096]
      = Inr ([n_rois, n_classes], [n_rois, 4 * n_classes])"
    by (simp add: create_fast_rcnn_predictor_def Let_def times_head plus_head mult.commute)
  show ?thesis
    using rpn head by simp
qed

theorem head_channel_counts_witness:
  "create_rpn [512, 61, 61]
     = Inr \<lparr>rpn_cls_score = [18, 61, 61], rpn_bbox_pred = [36, 61, 61], num_anchors = 9,
            num_predictions = 33489, bg_scores = (0, 0, 9), fg_scores = (0, 9, 18)\<rparr> \<and>
   create_fast_rcnn_predictor 17 [128, 4096] = Inr ([128, 17], [128, 68])"
proof -
  have "(0::nat) < 61" by simp
  from head_channel_counts [OF this this, of 512 17 128]
  obtain rpn where "create_rpn [512, 61, 61] = Inr rpn"
    and "create_fast_rcnn_predictor 17 [128, 4096] = Inr ([128, 17], [128, 4 * 17])"
    by blast
  moreover have "create_rpn [512, 61, 61]
     = Inr \<lparr>rpn_cls_score = [18, 61, 61], rpn_bbox_pred = [36, 61, 61], num_anchors = 9,
            num_predictions = 33489, bg_scores = (0, 0, 9), fg_scores = (0, 9, 18)\<rparr>"
    by (simp add: create_rpn_def Convolution_def Let_def)
  ultimately show ?thesis by simp
qed

subsection \<open>load_resize_and_pad\<close>

lemma np_round_div_cases:
  "(np_round_div p q = p div q \<and> 2 * (p mod q) \<le> q) \<or>
   (np_round_div p q = p div q + 1 \<and> q \<le> 2 * (p mod q))"
  by (simp add: np_round_div_def Let_def)


lemma np_round_div_le:
  assumes "0 < q" "p \<le> k * q"
  shows "np_round_div p q \<le> k"
proof -
  consider (down) "np_round_div p q = p div q" "2 * (p mod q) \<le> q"
    | (up) "np_round_div p q = p div q + 1" "q \<le> 2 * (p mod q)"
    using np_round_div_cases [of p q] by blast
  then show ?thesis
  proof cases
  case down
  have "p div q \<le> k * q div q"
    using assms by (intro zdiv_mono1) simp_all
  then show ?thesis using down assms(1) by simp
next
  case up
  have le: "p div q \<le> k * q div q"
    using assms by (intro zdiv_mono1) simp_all
  have "p div q \<noteq> k"
  proof
    assume eq: "p div q = k"
    have "p = p div q * q + p mod q"
      using div_mult_mod_eq [of p q] by simp
    with eq assms(2) have "p mod q \<le> 0" by simp
    with up(2) assms(1) show False by simp
  qed
  with le assms(1) show ?thesis using up by simp
qed
qed







text \<open>A square target is never smaller than the resized content.\<close>

lemma target_size_square:
  assumes "0 < img_width" "0 < img_height" "0 \<le> side"
    and "target_size img_width img_height side side = (target_w, target_h)"
  shows "target_w \<le> side \<and> target_h \<le> side"
proof (cases "img_height < img_width")
  case True
  have "img_height * side \<le> img_width * side"
    using True assms(3) by (intro mult_right_mono) simp_all
  then have "img_height * side \<le> side * img_width"
    by (simp add: mult.commute)
  from np_round_div_le [OF assms(1) this] True assms(4) show ?thesis
    by (auto simp: target_size_def)
next
  case False
  have "img_width * side \<le> img_height * side"
    using False assms(3) by (intro mult_right_mono) simp_all
  then have "img_width * side \<le> side * img_height"
    by (simp add: mult.commute)
  from np_round_div_le [OF assms(2) this] False assms(4) show ?thesis
    by (auto simp: target_size_def)
qed












end
